theory Spec2Isabelle
  imports Complex_Main "HOL-Library.Char_ord" "HOL-Library.List_Lexorder"
begin

section \<open>Python values and exceptions\<close>

text \<open>
  The cells of a pandas table and the results of \<^verbatim>\<open>ast.literal_eval\<close> are Python
  objects. One datatype covers both. \<open>Null\<close> stands for every missing marker
  (\<^verbatim>\<open>None\<close>, \<^verbatim>\<open>NaN\<close>, \<^verbatim>\<open>NaT\<close>, \<^verbatim>\<open>pd.NA\<close>); the other constructors are the
  values a literal can denote (strings, bytes, numbers, tuples, lists, dicts, sets,
  booleans, \<^verbatim>\<open>Ellipsis\<close>) and the timestamps \<^verbatim>\<open>pd.to_datetime\<close> produces. A string
  is its list of code points, each below 256, bytes are their list of integers, and a
  dict is its list of items in insertion order (keys are unique in Python). The model
  itself does no arithmetic on numbers: every conversion to a number is a call of the
  library (see below).
\<close>

datatype pyval =
    Null
  | PEllipsis
  | PBool bool
  | PInt int
  | PFloat rat
  | PComplex rat rat
  | PStr string
  | PBytes "nat list"
  | PTimestamp int nat nat
  | PTuple "pyval list"
  | PList "pyval list"
  | PSet "pyval list"
  | PDict "(pyval \<times> pyval) list"

datatype pyexn =
    KeyError "string list"
  | TypeError
  | ValueError
  | SyntaxError
  | AttributeError
  | RecursionError
  | MemoryError
  | OverflowError

text \<open>Truth value testing of Python, as \<^verbatim>\<open>if d.get("name")\<close> applies it.\<close>

fun truthy :: "pyval \<Rightarrow> bool" where
  "truthy Null = False"
| "truthy PEllipsis = True"
| "truthy (PBool b) = b"
| "truthy (PInt i) = (i \<noteq> 0)"
| "truthy (PFloat x) = (x \<noteq> 0)"
| "truthy (PComplex x y) = (x \<noteq> 0 \<or> y \<noteq> 0)"
| "truthy (PStr s) = (s \<noteq> [])"
| "truthy (PBytes bs) = (bs \<noteq> [])"
| "truthy (PTimestamp y m d) = True"
| "truthy (PTuple xs) = (xs \<noteq> [])"
| "truthy (PList xs) = (xs \<noteq> [])"
| "truthy (PSet xs) = (xs \<noteq> [])"
| "truthy (PDict kvs) = (kvs \<noteq> [])"

text \<open>
  \<^verbatim>\<open>for d in lst\<close>: lists, tuples and sets yield their elements, a dict its keys, a
  string its characters, bytes their integers; anything else raises \<^verbatim>\<open>TypeError\<close>.
\<close>

fun py_iter :: "pyval \<Rightarrow> pyexn + pyval list" where
  "py_iter (PList xs) = Inr xs"
| "py_iter (PTuple xs) = Inr xs"
| "py_iter (PSet xs) = Inr xs"
| "py_iter (PDict kvs) = Inr (map fst kvs)"
| "py_iter (PStr s) = Inr (map (\<lambda>c. PStr [c]) s)"
| "py_iter (PBytes bs) = Inr (map (\<lambda>b. PInt (int b)) bs)"
| "py_iter v = Inl TypeError"

text \<open>\<^verbatim>\<open>d.get(k, default)\<close> on the items of a dict.\<close>

definition dict_get :: "(pyval \<times> pyval) list \<Rightarrow> pyval \<Rightarrow> pyval \<Rightarrow> pyval" where
  "dict_get kvs k dflt = (case map_of kvs k of None \<Rightarrow> dflt | Some v \<Rightarrow> v)"

section \<open>Field parser: \<^verbatim>\<open>parse_genres\<close>\<close>

text \<open>
  \<^verbatim>\<open>isinstance(d, dict) and d.get("name")\<close>, the filter of the list comprehension, and
  \<^verbatim>\<open>d.get("name", "")\<close>, its element.
\<close>

fun has_name :: "pyval \<Rightarrow> bool" where
  "has_name (PDict kvs) = truthy (dict_get kvs (PStr ''name'') Null)"
| "has_name v = False"

fun get_name :: "pyval \<Rightarrow> pyval" where
  "get_name (PDict kvs) = dict_get kvs (PStr ''name'') (PStr '''')"
| "get_name v = Null"

text \<open>
  The body of the \<^verbatim>\<open>try\<close> block. \<^verbatim>\<open>ast.literal_eval\<close> is a library function: it is
  the parameter \<open>literal_eval\<close>, which either raises or returns a value.
\<close>

definition parse_genres_try :: "(string \<Rightarrow> pyexn + pyval) \<Rightarrow> string \<Rightarrow> pyexn + pyval list" where
  "parse_genres_try literal_eval t =
     (case literal_eval t of
        Inl e \<Rightarrow> Inl e
      | Inr lst \<Rightarrow>
          (case py_iter lst of
             Inl e \<Rightarrow> Inl e
           | Inr ds \<Rightarrow> Inr (map get_name (filter has_name ds))))"

text \<open>
  \<^verbatim>\<open>parse_genres(s)\<close>: the guard \<^verbatim>\<open>not isinstance(s, str) or not s\<close>, then the
  \<^verbatim>\<open>try\<close> block with its bare \<^verbatim>\<open>except\<close>, which turns every exception into \<^verbatim>\<open>[]\<close>.
\<close>

definition parse_genres :: "(string \<Rightarrow> pyexn + pyval) \<Rightarrow> pyval \<Rightarrow> pyexn + pyval list" where
  "parse_genres literal_eval s =
     (case s of
        PStr t \<Rightarrow>
          if t = [] then Inr []
          else (case parse_genres_try literal_eval t of
                  Inl e \<Rightarrow> Inr []
                | Inr names \<Rightarrow> Inr names)
      | _ \<Rightarrow> Inr [])"

text \<open>A small table of \<^verbatim>\<open>ast.literal_eval\<close> results, for evaluating examples.\<close>

definition literal_eval_sample :: "string \<Rightarrow> pyexn + pyval" where
  "literal_eval_sample t =
     (if t = ''[{'id': 18, 'name': 'Drama'}, {'id': 80, 'name': 'Crime'}]''
      then Inr (PList [PDict [(PStr ''id'', PInt 18), (PStr ''name'', PStr ''Drama'')],
                       PDict [(PStr ''id'', PInt 80), (PStr ''name'', PStr ''Crime'')]])
      else if t = ''[{'id': 18, 'name': 'Drama'}]''
      then Inr (PList [PDict [(PStr ''id'', PInt 18), (PStr ''name'', PStr ''Drama'')]])
      else if t = ''[{'id': 18}, 7, {'name': None}]''
      then Inr (PList [PDict [(PStr ''id'', PInt 18)], PInt 7, PDict [(PStr ''name'', Null)]])
      else if t = ''42'' then Inr (PInt 42)
      else if t = ''[]'' then Inr (PList [])
      else if t = ''not a list'' then Inl SyntaxError
      else Inl ValueError)"

section \<open>Tables\<close>

text \<open>
  A pandas \<^verbatim>\<open>DataFrame\<close> is its list of column labels and its list of rows, a row
  mapping each label to its cell. The row index is always the default one here (every
  stage ends with \<^verbatim>\<open>reset_index(drop=True)\<close> or builds a fresh frame), so it is the
  position in the list. Modelling boundary: column labels are taken to be unique within
  a frame, and a column has no dtype of its own: cells are dynamically typed values.
  Whatever pandas decides from the dtype of a column (the conversions of a column and the
  check of the \<^verbatim>\<open>.str\<close> accessor) is left to the library parameters below. When a join
  leaves missing cells in a column of machine integers, pandas stores that column as
  floats of the same values; the model keeps the cells as they are.
\<close>

type_synonym row = "string \<rightharpoonup> pyval"

record frame =
  columns :: "string list"
  rows :: "row list"

definition cell :: "row \<Rightarrow> string \<Rightarrow> pyval" where
  "cell r c = (case r c of None \<Rightarrow> Null | Some v \<Rightarrow> v)"

text \<open>Sequencing of steps that may raise: the first exception ends the computation.\<close>

definition and_then :: "pyexn + 'a \<Rightarrow> ('a \<Rightarrow> pyexn + 'b) \<Rightarrow> pyexn + 'b" where
  "and_then m k = (case m of Inl e \<Rightarrow> Inl e | Inr x \<Rightarrow> k x)"

fun map_err :: "('a \<Rightarrow> pyexn + 'b) \<Rightarrow> 'a list \<Rightarrow> pyexn + 'b list" where
  "map_err g [] = Inr []"
| "map_err g (x # xs) =
     (case g x of
        Inl e \<Rightarrow> Inl e
      | Inr y \<Rightarrow> (case map_err g xs of Inl e \<Rightarrow> Inl e | Inr ys \<Rightarrow> Inr (y # ys)))"

subsection \<open>The pandas operations the pipeline calls\<close>

text \<open>\<^verbatim>\<open>df[cs]\<close> with a list of labels: a new frame of those columns; a missing label raises.\<close>

definition getitem_columns :: "string list \<Rightarrow> frame \<Rightarrow> pyexn + frame" where
  "getitem_columns cs f =
     (if \<forall>c \<in> set cs. c \<in> set (columns f)
      then Inr \<lparr>columns = cs, rows = map (\<lambda>r. r |` set cs) (rows f)\<rparr>
      else Inl (KeyError (filter (\<lambda>c. c \<notin> set (columns f)) cs)))"

text \<open>
  \<^verbatim>\<open>df[src]\<close> with one label: the cells of the column, in row order; a missing label
  raises.
\<close>

definition getitem_column :: "string \<Rightarrow> frame \<Rightarrow> pyexn + pyval list" where
  "getitem_column src f =
     (if src \<in> set (columns f) then Inr (map (\<lambda>r. cell r src) (rows f))
      else Inl (KeyError [src]))"

text \<open>
  \<^verbatim>\<open>df[c] = series\<close>: pandas aligns the series with the index of the frame, so row \<open>i\<close>
  gets cell \<open>i\<close> of the series and a missing value where the series has no such cell.
  An existing column \<open>c\<close> is overwritten in its place and a new one is appended.
\<close>

definition add_column :: "string \<Rightarrow> string list \<Rightarrow> string list" where
  "add_column c cs = (if c \<in> set cs then cs else cs @ [c])"

definition reindex :: "nat \<Rightarrow> pyval list \<Rightarrow> pyval list" where
  "reindex n vs = map (\<lambda>i. if i < length vs then vs ! i else Null) [0..<n]"

definition setitem_column :: "string \<Rightarrow> pyval list \<Rightarrow> frame \<Rightarrow> frame" where
  "setitem_column c vs f =
     \<lparr>columns = add_column c (columns f),
      rows = map (\<lambda>(r, v). r(c \<mapsto> v)) (zip (rows f) (reindex (length (rows f)) vs))\<rparr>"

text \<open>
  \<^verbatim>\<open>df[c] = g(df[src])\<close> for an operation \<open>g\<close> on the whole column \<open>src\<close>: reading a
  missing column raises, and so may \<open>g\<close>, which aborts the assignment.
\<close>

definition assign_from :: "string \<Rightarrow> string \<Rightarrow> (pyval list \<Rightarrow> pyexn + pyval list) \<Rightarrow> frame \<Rightarrow> pyexn + frame" where
  "assign_from c src g f =
     and_then (getitem_column src f) (\<lambda>col.
     and_then (g col) (\<lambda>vs. Inr (setitem_column c vs f)))"

text \<open>\<^verbatim>\<open>df.drop(columns=cs)\<close>: a label that is not a column raises.\<close>

definition drop_columns :: "string list \<Rightarrow> frame \<Rightarrow> pyexn + frame" where
  "drop_columns cs f =
     (if \<forall>c \<in> set cs. c \<in> set (columns f)
      then Inr \<lparr>columns = filter (\<lambda>c. c \<notin> set cs) (columns f),
                rows = map (\<lambda>r. r |` (- set cs)) (rows f)\<rparr>
      else Inl (KeyError (filter (\<lambda>c. c \<notin> set (columns f)) cs)))"

text \<open>
  \<^verbatim>\<open>df.rename(columns=m)\<close>: labels that are keys of \<open>m\<close> are replaced, all at once;
  keys that are not columns are ignored. A relabelled row holds under each new label the
  cell of the column that got it.
\<close>

definition relabel :: "(string \<times> string) list \<Rightarrow> string \<Rightarrow> string" where
  "relabel m c = (case map_of m c of None \<Rightarrow> c | Some c' \<Rightarrow> c')"

definition relabel_row :: "(string \<Rightarrow> string) \<Rightarrow> string list \<Rightarrow> row \<Rightarrow> row" where
  "relabel_row nm cs r = (\<lambda>c'. case find (\<lambda>c. nm c = c') cs of None \<Rightarrow> None | Some c \<Rightarrow> r c)"

definition rename_columns :: "(string \<times> string) list \<Rightarrow> frame \<Rightarrow> frame" where
  "rename_columns m f =
     \<lparr>columns = map (relabel m) (columns f),
      rows = map (relabel_row (relabel m) (columns f)) (rows f)\<rparr>"

text \<open>\<^verbatim>\<open>df.dropna(subset=[c])\<close>: the rows whose cell in \<open>c\<close> is not missing.\<close>

definition dropna :: "string \<Rightarrow> frame \<Rightarrow> pyexn + frame" where
  "dropna c f =
     (if c \<in> set (columns f)
      then Inr \<lparr>columns = columns f, rows = filter (\<lambda>r. cell r c \<noteq> Null) (rows f)\<rparr>
      else Inl (KeyError [c]))"

text \<open>
  \<^verbatim>\<open>df.drop_duplicates(subset=[c], keep='first')\<close>: of the rows with equal cells in \<open>c\<close>
  the first one stays, in its place.
\<close>

fun keep_first :: "string \<Rightarrow> pyval list \<Rightarrow> row list \<Rightarrow> row list" where
  "keep_first c seen [] = []"
| "keep_first c seen (r # rs) =
     (if cell r c \<in> set seen then keep_first c seen rs
      else r # keep_first c (cell r c # seen) rs)"

definition drop_duplicates :: "string \<Rightarrow> frame \<Rightarrow> pyexn + frame" where
  "drop_duplicates c f =
     (if c \<in> set (columns f)
      then Inr \<lparr>columns = columns f, rows = keep_first c [] (rows f)\<rparr>
      else Inl (KeyError [c]))"

text \<open>
  \<^verbatim>\<open>pd.merge(left=l, right=r, on=key, how='left')\<close>. Every left row appears, in order:
  once for each right row with an equal key, in the right table's order, or once with
  missing values in the right table's columns when no right row has its key. pandas
  matches a missing key with a missing key. Labels other than the key that both tables
  carry get the suffixes \<^verbatim>\<open>_x\<close> and \<^verbatim>\<open>_y\<close>. The two key columns are taken to be of one
  kind (both integers, or both text, as in the input schema of the reconciler below):
  pandas refuses to merge on key columns of incompatible dtypes, and compares a float with
  an integer by value.
\<close>

definition null_row :: "string list \<Rightarrow> row" where
  "null_row cs = (\<lambda>c. if c \<in> set cs then Some Null else None)"

definition join_rows :: "string \<Rightarrow> row list \<Rightarrow> row \<Rightarrow> row option list" where
  "join_rows key rs l =
     (case filter (\<lambda>r. cell r key = cell l key) rs of
        [] \<Rightarrow> [None]
      | m # ms \<Rightarrow> map Some (m # ms))"

definition pd_merge_left :: "string \<Rightarrow> frame \<Rightarrow> frame \<Rightarrow> pyexn + frame" where
  "pd_merge_left key left right =
     (if key \<notin> set (columns left) \<or> key \<notin> set (columns right) then Inl (KeyError [key])
      else
        let overlap = filter (\<lambda>c. c \<noteq> key \<and> c \<in> set (columns right)) (columns left);
            lname = (\<lambda>c. if c \<in> set overlap then c @ ''_x'' else c);
            rname = (\<lambda>c. if c \<in> set overlap then c @ ''_y'' else c);
            rcols = filter (\<lambda>c. c \<noteq> key) (columns right)
        in Inr \<lparr>columns = map lname (columns left) @ map rname rcols,
                rows = concat (map (\<lambda>l. map (\<lambda>m. relabel_row lname (columns left) l ++
                                                   relabel_row rname rcols
                                                     (case m of None \<Rightarrow> null_row rcols | Some r \<Rightarrow> r))
                                              (join_rows key (rows right) l))
                                   (rows left))\<rparr>)"

text \<open>
  \<^verbatim>\<open>x.strip()\<close> on one cell, as \<^verbatim>\<open>series.str.strip()\<close> applies it: a string loses
  its leading and trailing whitespace (the code points below 256 for which
  \<^verbatim>\<open>str.isspace\<close> holds), bytes lose their leading and trailing ASCII whitespace, a
  missing cell stays missing, and a cell of any other type has no \<^verbatim>\<open>strip\<close>, which
  pandas turns into a missing value.
\<close>

definition is_space :: "char \<Rightarrow> bool" where
  "is_space ch = (of_char ch \<in> {9, 10, 11, 12, 13, 28, 29, 30, 31, 32, 133, 160 :: nat})"

definition is_space_byte :: "nat \<Rightarrow> bool" where
  "is_space_byte b = (b \<in> {9, 10, 11, 12, 13, 32})"

definition strip :: "string \<Rightarrow> string" where
  "strip s = rev (dropWhile is_space (rev (dropWhile is_space s)))"

definition strip_bytes :: "nat list \<Rightarrow> nat list" where
  "strip_bytes bs = rev (dropWhile is_space_byte (rev (dropWhile is_space_byte bs)))"

fun str_strip :: "pyval \<Rightarrow> pyval" where
  "str_strip (PStr s) = PStr (strip s)"
| "str_strip (PBytes bs) = PBytes (strip_bytes bs)"
| "str_strip v = Null"

text \<open>
  \<^verbatim>\<open>df.sort_values(c).reset_index(drop=True)\<close> on an \<^verbatim>\<open>Int64\<close> column: ascending, rows with
  a missing key last. The order pandas gives to rows with equal keys is not specified by
  its default sorting algorithm; the model keeps their input order.
\<close>

fun int_of :: "pyval \<Rightarrow> int" where
  "int_of (PInt i) = i"
| "int_of v = 0"

definition sort_values :: "string \<Rightarrow> frame \<Rightarrow> pyexn + frame" where
  "sort_values c f =
     (if c \<in> set (columns f)
      then Inr \<lparr>columns = columns f,
                rows = sort_key (\<lambda>r. int_of (cell r c)) (filter (\<lambda>r. cell r c \<noteq> Null) (rows f))
                       @ filter (\<lambda>r. cell r c = Null) (rows f)\<rparr>
      else Inl (KeyError [c]))"

subsection \<open>Library conversions\<close>

text \<open>
  What the libraries compute from a whole column, or from the text of a literal, is a
  parameter of the model: \<^verbatim>\<open>ast.literal_eval\<close>, \<^verbatim>\<open>pd.to_numeric(s, errors="coerce")\<close>,
  \<^verbatim>\<open>s.astype("Int64")\<close>, \<^verbatim>\<open>pd.to_datetime(s, errors="coerce")\<close>, \<^verbatim>\<open>s.dt.year\<close>, and the
  check \<^verbatim>\<open>s.str\<close> makes before any string method runs (it refuses a column that pandas
  does not take for text). Each conversion gets the cells of the column and returns the
  cells of the new column, or raises. A conversion looks up no label, so it raises no
  \<^verbatim>\<open>KeyError\<close>: its exceptions are the four of \<open>convexn\<close>.
\<close>

datatype convexn = ConvTypeError | ConvValueError | ConvAttributeError | ConvOverflowError

fun raised :: "convexn \<Rightarrow> pyexn" where
  "raised ConvTypeError = TypeError"
| "raised ConvValueError = ValueError"
| "raised ConvAttributeError = AttributeError"
| "raised ConvOverflowError = OverflowError"

definition pandas_call :: "convexn + 'a \<Rightarrow> pyexn + 'a" where
  "pandas_call res = (case res of Inl e \<Rightarrow> Inl (raised e) | Inr x \<Rightarrow> Inr x)"

record library =
  ast_literal_eval :: "string \<Rightarrow> pyexn + pyval"
  to_numeric :: "pyval list \<Rightarrow> convexn + pyval list"
  astype_Int64 :: "pyval list \<Rightarrow> convexn + pyval list"
  to_datetime :: "pyval list \<Rightarrow> convexn + pyval list"
  dt_year :: "pyval list \<Rightarrow> convexn + pyval list"
  str_accessor :: "pyval list \<Rightarrow> convexn option"

text \<open>\<^verbatim>\<open>pd.to_numeric(s, errors="coerce").astype("Int64")\<close>, the two calls in sequence.\<close>

definition numeric_Int64 :: "library \<Rightarrow> pyval list \<Rightarrow> pyexn + pyval list" where
  "numeric_Int64 lib s =
     and_then (pandas_call (to_numeric lib s)) (\<lambda>nums. pandas_call (astype_Int64 lib nums))"

text \<open>
  \<^verbatim>\<open>s.str.strip()\<close>: the accessor's check, then \<^verbatim>\<open>strip\<close> on every cell.
\<close>

definition str_strip_series :: "library \<Rightarrow> pyval list \<Rightarrow> pyexn + pyval list" where
  "str_strip_series lib s =
     (case str_accessor lib s of
        Some e \<Rightarrow> Inl (raised e)
      | None \<Rightarrow> Inr (map str_strip s))"

text \<open>
  \<^verbatim>\<open>df[df[c].isin(pd.Series(movie_ids, dtype="Int64"))].reset_index(drop=True)\<close> for
  a list \<open>movie_ids\<close> of integers (of 64 bits, the \<open>set<int>\<close> of the specification) and
  an \<^verbatim>\<open>Int64\<close> column \<open>c\<close>: the rows whose cell in \<open>c\<close> is one of the ids; a missing cell
  is in no list of integers.
\<close>

fun isin :: "int list \<Rightarrow> pyval \<Rightarrow> bool" where
  "isin ids (PInt i) = (i \<in> set ids)"
| "isin ids v = False"

definition filter_isin :: "string \<Rightarrow> int list \<Rightarrow> frame \<Rightarrow> pyexn + frame" where
  "filter_isin c ids f =
     (if c \<in> set (columns f)
      then Inr \<lparr>columns = columns f, rows = filter (\<lambda>r. isin ids (cell r c)) (rows f)\<rparr>
      else Inl (KeyError [c]))"

section \<open>Objects and in-place updates\<close>

text \<open>
  Frames are objects: a variable holds a reference, and an assignment to a column or an
  \<^verbatim>\<open>inplace=True\<close> call changes the object every holder of the reference sees. The
  heap is the list of all frames allocated so far and a reference is a position in it.
  \<open>alloc\<close> is a pandas call that returns a new frame, \<open>update\<close> one that changes the
  frame at a reference; an exception leaves the heap as it is at that moment.
\<close>

type_synonym heap = "frame list"

definition alloc :: "heap \<Rightarrow> pyexn + frame \<Rightarrow> heap \<times> (pyexn + nat)" where
  "alloc h res = (case res of Inl e \<Rightarrow> (h, Inl e) | Inr f \<Rightarrow> (h @ [f], Inr (length h)))"

definition update :: "heap \<Rightarrow> nat \<Rightarrow> pyexn + frame \<Rightarrow> heap \<times> (pyexn + nat)" where
  "update h a res = (case res of Inl e \<Rightarrow> (h, Inl e) | Inr f \<Rightarrow> (h[a := f], Inr a))"

definition then_h :: "heap \<times> (pyexn + nat) \<Rightarrow> (heap \<Rightarrow> nat \<Rightarrow> heap \<times> (pyexn + 'a)) \<Rightarrow> heap \<times> (pyexn + 'a)" where
  "then_h m k = (case m of (h, Inl e) \<Rightarrow> (h, Inl e) | (h, Inr a) \<Rightarrow> k h a)"

text \<open>
  A function body that rebinds one variable line after line is a list of statements,
  each either binding the variable to a new frame (\<open>Fresh\<close>) or changing the frame it
  refers to (\<open>InPlace\<close>). \<open>exec_pure\<close> computes the value of the variable, \<open>exec_heap\<close>
  runs the statements on the heap.
\<close>

datatype effect = Fresh | InPlace

type_synonym stmt = "effect \<times> (frame \<Rightarrow> pyexn + frame)"

fun exec_pure :: "stmt list \<Rightarrow> frame \<Rightarrow> pyexn + frame" where
  "exec_pure [] f = Inr f"
| "exec_pure ((eff, g) # ss) f = and_then (g f) (exec_pure ss)"

fun exec_heap :: "stmt list \<Rightarrow> heap \<Rightarrow> nat \<Rightarrow> heap \<times> (pyexn + nat)" where
  "exec_heap [] h a = (h, Inr a)"
| "exec_heap ((Fresh, g) # ss) h a = then_h (alloc h (g (h ! a))) (exec_heap ss)"
| "exec_heap ((InPlace, g) # ss) h a = then_h (update h a (g (h ! a))) (exec_heap ss)"

section \<open>Metadata normalizer: \<^verbatim>\<open>filter_transform_metadata\<close>\<close>

definition required :: "string list" where
  "required = [''id'', ''imdb_id'', ''title'', ''original_language'', ''release_date'',
               ''runtime'', ''budget'', ''revenue'', ''genres'']"

text \<open>
  \<^verbatim>\<open>set(required) - set(df.columns)\<close>; the labels of \<open>required\<close> are distinct, so the
  list holds each missing label once, and \<^verbatim>\<open>sorted(missing)\<close> is its sorted list.
\<close>

definition missing_columns :: "frame \<Rightarrow> string list" where
  "missing_columns df = filter (\<lambda>c. c \<notin> set (columns df)) required"

text \<open>\<^verbatim>\<open>transformed["genres"].map(parse_genres)\<close>: one call for each cell.\<close>

definition genre_lst_cell :: "library \<Rightarrow> pyval \<Rightarrow> pyexn + pyval" where
  "genre_lst_cell lib v = and_then (parse_genres (ast_literal_eval lib) v) (\<lambda>names. Inr (PList names))"

text \<open>
  The statements of the body after the check of the columns (lines 44 to 65 of
  \<^verbatim>\<open>process.py\<close>), on the variable \<^verbatim>\<open>transformed\<close>; the two \<^verbatim>\<open>for\<close> loops are
  unrolled over their lists of columns.
\<close>

definition ftm_body :: "library \<Rightarrow> int list \<Rightarrow> stmt list" where
  "ftm_body lib movie_ids =
     [(Fresh, getitem_columns required),
      (Fresh, Inr),
      (InPlace, assign_from ''id'' ''id'' (numeric_Int64 lib)),
      (Fresh, filter_isin ''id'' movie_ids),
      (InPlace, assign_from ''release_date'' ''release_date'' (\<lambda>s. pandas_call (to_datetime lib s))),
      (InPlace, assign_from ''year'' ''release_date'' (\<lambda>s. pandas_call (dt_year lib s))),
      (InPlace, assign_from ''year'' ''year'' (numeric_Int64 lib))]
     @ map (\<lambda>c. (InPlace, assign_from c c (\<lambda>s. pandas_call (to_numeric lib s))))
         [''runtime'', ''budget'', ''revenue'']
     @ map (\<lambda>c. (InPlace, assign_from c c (str_strip_series lib)))
         [''imdb_id'', ''title'', ''original_language'']
     @ [(InPlace, assign_from ''genre_lst'' ''genres'' (map_err (genre_lst_cell lib))),
        (InPlace, drop_columns [''genres'']),
        (Fresh, sort_values ''id'')]"

text \<open>The value the function returns, and the function on the heap, given the reference \<open>df\<close>.\<close>

definition filter_transform_metadata :: "library \<Rightarrow> frame \<Rightarrow> int list \<Rightarrow> pyexn + frame" where
  "filter_transform_metadata lib df movie_ids =
     (if missing_columns df \<noteq> [] then Inl (KeyError (sort (missing_columns df)))
      else exec_pure (ftm_body lib movie_ids) df)"

definition filter_transform_metadata_h :: "library \<Rightarrow> heap \<Rightarrow> nat \<Rightarrow> int list \<Rightarrow> heap \<times> (pyexn + nat)" where
  "filter_transform_metadata_h lib h df movie_ids =
     (if missing_columns (h ! df) \<noteq> [] then (h, Inl (KeyError (sort (missing_columns (h ! df)))))
      else exec_heap (ftm_body lib movie_ids) h df)"

subsection \<open>Predicates on statements, for the proofs\<close>

text \<open>What the operations on a column can raise: the exception of a conversion.\<close>

definition conversion_error :: "pyexn \<Rightarrow> bool" where
  "conversion_error e \<longleftrightarrow> (\<exists>c. e = raised c)"

text \<open>
  A statement that keeps the labels \<open>S\<close> among the columns and raises nothing but the
  exception of a conversion: an assignment from a column of \<open>S\<close>, or the filter on \<^verbatim>\<open>id\<close>.
\<close>

definition keeps :: "string set \<Rightarrow> stmt \<Rightarrow> bool" where
  "keeps S s \<longleftrightarrow>
     (\<exists>c src g. s = (InPlace, assign_from c src g) \<and> src \<in> S \<and>
                (\<forall>col e. g col = Inl e \<longrightarrow> conversion_error e)) \<or>
     (\<exists>ids. s = (Fresh, filter_isin ''id'' ids) \<and> ''id'' \<in> S)"

section \<open>Categorical expander: \<^verbatim>\<open>one_hot_encode_genres\<close>\<close>

text \<open>
  \<^verbatim>\<open>MultiLabelBinarizer.fit_transform\<close> iterates every cell of the column for its labels.
  The docstring asks for \<^verbatim>\<open>list[str]\<close>; a cell that cannot be iterated raises
  \<^verbatim>\<open>TypeError\<close>, and so does the model for a label that is not a string (as sorting does
  in Python once strings are mixed with other labels). The indicator columns are appended
  to the columns that remain; with labels unique within a frame, a genre name is taken not
  to be a label of one of those columns.
\<close>

fun label_of :: "pyval \<Rightarrow> pyexn + string" where
  "label_of (PStr s) = Inr s"
| "label_of v = Inl TypeError"

definition labels_of :: "pyval \<Rightarrow> pyexn + string list" where
  "labels_of v = and_then (py_iter v) (map_err label_of)"

text \<open>One row of the indicator frame: 1 under the labels of the row, 0 under the others.\<close>

definition indicator_row :: "string list \<Rightarrow> string list \<Rightarrow> row" where
  "indicator_row classes labels =
     (\<lambda>g. if g \<in> set classes then Some (PInt (if g \<in> set labels then 1 else 0)) else None)"

definition one_hot_encode_genres :: "frame \<Rightarrow> pyexn + frame" where
  "one_hot_encode_genres df =
     (if ''genre_lst'' \<notin> set (columns df) then Inl (KeyError [''genre_lst''])
      else
        and_then (map_err (\<lambda>r. labels_of (cell r ''genre_lst'')) (rows df)) (\<lambda>y.
        let genre_cols = sort (remdups (concat y)) in
        and_then (drop_columns [''genre_lst''] df) (\<lambda>d.
        Inr \<lparr>columns = columns d @ genre_cols,
             rows = map (\<lambda>(r, labels). r ++ indicator_row genre_cols labels) (zip (rows d) y)\<rparr>)))"

definition one_hot_encode_genres_h :: "heap \<Rightarrow> nat \<Rightarrow> heap \<times> (pyexn + nat)" where
  "one_hot_encode_genres_h h df = alloc h (one_hot_encode_genres (h ! df))"

section \<open>Reconciler: \<^verbatim>\<open>merge_datasets\<close>\<close>

text \<open>
  The function on the heap, statement by statement. Line 94 assigns to a column of the
  frame the caller passed as \<^verbatim>\<open>imdb_ratings\<close>; every other statement binds a new frame
  or changes \<^verbatim>\<open>merged\<close>, which the function allocated itself.
\<close>

definition merge_datasets_h :: "library \<Rightarrow> heap \<Rightarrow> nat \<Rightarrow> nat \<Rightarrow> nat \<Rightarrow> heap \<times> (pyexn + nat)" where
  "merge_datasets_h lib h ml_links meta_with_genres imdb_ratings =
     then_h (alloc h (Inr (rename_columns [(''id'', ''tmdbId'')] (h ! meta_with_genres)))) (\<lambda>h meta.
     then_h (alloc h (Inr (h ! meta))) (\<lambda>h meta.
     then_h (alloc h (dropna ''tmdbId'' (h ! meta))) (\<lambda>h meta.
     then_h (alloc h (drop_duplicates ''tmdbId'' (h ! meta))) (\<lambda>h meta.
     then_h (alloc h (pd_merge_left ''tmdbId'' (h ! ml_links) (h ! meta))) (\<lambda>h merged.
     then_h (update h merged
               (assign_from ''tconst'' ''imdb_id'' (str_strip_series lib) (h ! merged))) (\<lambda>h merged.
     then_h (update h imdb_ratings
               (assign_from ''tconst'' ''tconst'' (str_strip_series lib) (h ! imdb_ratings))) (\<lambda>h ratings.
     then_h (alloc h (pd_merge_left ''tconst'' (h ! merged) (h ! ratings))) (\<lambda>h merged.
     then_h (alloc h (drop_columns [''imdbId'', ''tconst''] (h ! merged))) (\<lambda>h merged.
     alloc h (Inr (rename_columns [(''imdb_id'', ''imdbId''), (''numVotes'', ''imdb_numVotes''),
                                   (''averageRating'', ''imdb_averageRating'')] (h ! merged))))))))))))"

text \<open>The value the function returns, as a function of the values of its three arguments.\<close>

definition merge_datasets :: "library \<Rightarrow> frame \<Rightarrow> frame \<Rightarrow> frame \<Rightarrow> pyexn + frame" where
  "merge_datasets lib ml_links meta_with_genres imdb_ratings =
     and_then (dropna ''tmdbId'' (rename_columns [(''id'', ''tmdbId'')] meta_with_genres)) (\<lambda>meta.
     and_then (drop_duplicates ''tmdbId'' meta) (\<lambda>meta.
     and_then (pd_merge_left ''tmdbId'' ml_links meta) (\<lambda>merged.
     and_then (assign_from ''tconst'' ''imdb_id'' (str_strip_series lib) merged) (\<lambda>merged.
     and_then (assign_from ''tconst'' ''tconst'' (str_strip_series lib) imdb_ratings) (\<lambda>ratings.
     and_then (pd_merge_left ''tconst'' merged ratings) (\<lambda>merged.
     and_then (drop_columns [''imdbId'', ''tconst''] merged) (\<lambda>merged.
     Inr (rename_columns [(''imdb_id'', ''imdbId''), (''numVotes'', ''imdb_numVotes''),
                          (''averageRating'', ''imdb_averageRating'')] merged))))))))"

section \<open>Input schema of the reconciler\<close>

text \<open>
  The tables the reconciler is written for, as the loaders and the two earlier stages
  produce them: the link table has the three id columns of \<^verbatim>\<open>links.csv\<close>, the rating
  table the three columns of \<^verbatim>\<open>title.ratings.tsv\<close>, and the catalog has at least \<^verbatim>\<open>id\<close>
  and \<^verbatim>\<open>imdb_id\<close>, distinct labels, and no column that bears a label of the other two
  tables or of the published output. The ids joined on are \<^verbatim>\<open>Int64\<close> cells (a 64-bit
  integer or missing), and the cross-reference of the catalog and the key of the rating
  table are text cells (a string or missing).
\<close>

fun Int64_cell :: "pyval \<Rightarrow> bool" where
  "Int64_cell Null = True"
| "Int64_cell (PInt i) = (- (2 ^ 63) \<le> i \<and> i < 2 ^ 63)"
| "Int64_cell v = False"

fun text_cell :: "pyval \<Rightarrow> bool" where
  "text_cell Null = True"
| "text_cell (PStr s) = True"
| "text_cell v = False"

definition reserved_labels :: "string list" where
  "reserved_labels = [''movieId'', ''imdbId'', ''tmdbId'', ''tconst'', ''averageRating'',
                      ''numVotes'', ''imdb_averageRating'', ''imdb_numVotes'']"

definition reconciler_inputs :: "frame \<Rightarrow> frame \<Rightarrow> frame \<Rightarrow> bool" where
  "reconciler_inputs ml_links meta_with_genres imdb_ratings \<longleftrightarrow>
     columns ml_links = [''movieId'', ''imdbId'', ''tmdbId''] \<and>
     columns imdb_ratings = [''tconst'', ''averageRating'', ''numVotes''] \<and>
     ''id'' \<in> set (columns meta_with_genres) \<and> ''imdb_id'' \<in> set (columns meta_with_genres) \<and>
     distinct (columns meta_with_genres) \<and>
     set (columns meta_with_genres) \<inter> set reserved_labels = {} \<and>
     list_all (\<lambda>l. Int64_cell (cell l ''tmdbId'')) (rows ml_links) \<and>
     list_all (\<lambda>m. Int64_cell (cell m ''id'') \<and> text_cell (cell m ''imdb_id'')) (rows meta_with_genres) \<and>
     list_all (\<lambda>q. text_cell (cell q ''tconst'')) (rows imdb_ratings)"

text \<open>
  The catalog row a link row is joined with, in the words of the specification: the first
  row of the catalog whose id is not missing and equals the link's external catalog id.
\<close>

definition catalog_match :: "frame \<Rightarrow> pyval \<Rightarrow> row option" where
  "catalog_match meta k = find (\<lambda>m. cell m ''id'' \<noteq> Null \<and> cell m ''id'' = k) (rows meta)"

text \<open>
  The rating rows a link row is joined with: the key is the trimmed cross-reference of its
  catalog row (missing without one), and the rating rows are those whose trimmed key
  equals it.
\<close>

definition rating_key :: "row option \<Rightarrow> pyval" where
  "rating_key m = (case m of None \<Rightarrow> Null | Some m \<Rightarrow> str_strip (cell m ''imdb_id''))"

definition rating_matches :: "frame \<Rightarrow> pyval \<Rightarrow> row list" where
  "rating_matches imdb_ratings k = filter (\<lambda>q. str_strip (cell q ''tconst'') = k) (rows imdb_ratings)"

text \<open>
  A reconciled row, in the words of the specification: the two published ids of the link
  row \<open>l\<close>, every catalog field of the catalog row \<open>m\<close> (missing when there is none) under
  its published label, and the two rating fields of the rating row \<open>q\<close> (missing when there
  is none).
\<close>

definition reconciles :: "frame \<Rightarrow> row \<Rightarrow> row option \<Rightarrow> row option \<Rightarrow> row \<Rightarrow> bool" where
  "reconciles meta l m q r \<longleftrightarrow>
     cell r ''movieId'' = cell l ''movieId'' \<and> cell r ''tmdbId'' = cell l ''tmdbId'' \<and>
     (\<forall>c \<in> set (columns meta). c \<noteq> ''id'' \<longrightarrow>
        cell r (if c = ''imdb_id'' then ''imdbId'' else c)
          = (case m of None \<Rightarrow> Null | Some m \<Rightarrow> cell m c)) \<and>
     cell r ''imdb_averageRating'' = (case q of None \<Rightarrow> Null | Some q \<Rightarrow> cell q ''averageRating'') \<and>
     cell r ''imdb_numVotes'' = (case q of None \<Rightarrow> Null | Some q \<Rightarrow> cell q ''numVotes'')"

text \<open>
  The column \<^verbatim>\<open>merged['imdb_id']\<close> that line 93 hands to \<^verbatim>\<open>.str\<close>: for each link row
  the cross-reference of its catalog row, missing when it has none.
\<close>

definition cross_references :: "frame \<Rightarrow> frame \<Rightarrow> pyval list" where
  "cross_references ml_links meta_with_genres =
     map (\<lambda>l. case catalog_match meta_with_genres (cell l ''tmdbId'') of
                 None \<Rightarrow> Null | Some m \<Rightarrow> cell m ''imdb_id'') (rows ml_links)"

section \<open>Sample tables\<close>

text \<open>Small inputs on which the theorems below are instantiated.\<close>

definition catalog_sample :: frame where
  "catalog_sample = \<lparr>columns = [''id'', ''imdb_id'', ''title'', ''original_language'', ''release_date'',
                                 ''runtime'', ''budget'', ''revenue'', ''genres'', ''overview''],
     rows = [[''id'' \<mapsto> PStr ''2'', ''imdb_id'' \<mapsto> PStr '' tt2'', ''title'' \<mapsto> PStr ''B '',
              ''original_language'' \<mapsto> PStr ''en'', ''release_date'' \<mapsto> PStr ''1995-10-30'',
              ''runtime'' \<mapsto> PFloat 81, ''budget'' \<mapsto> PStr ''30000000'', ''revenue'' \<mapsto> PInt 5,
              ''genres'' \<mapsto> PStr ''not a list'', ''overview'' \<mapsto> Null],
             [''id'' \<mapsto> PStr ''1'', ''imdb_id'' \<mapsto> PStr ''tt1'', ''title'' \<mapsto> PStr ''A'',
              ''original_language'' \<mapsto> PStr ''en'', ''release_date'' \<mapsto> PStr ''bad'',
              ''runtime'' \<mapsto> Null, ''budget'' \<mapsto> PStr ''x'', ''revenue'' \<mapsto> PInt 5,
              ''genres'' \<mapsto> PStr ''[{'id': 18, 'name': 'Drama'}]'', ''overview'' \<mapsto> Null],
             [''id'' \<mapsto> PStr ''1997-08-20'', ''imdb_id'' \<mapsto> PStr ''tt3'', ''title'' \<mapsto> PStr ''C'',
              ''original_language'' \<mapsto> PStr ''en'', ''release_date'' \<mapsto> PStr ''bad'',
              ''runtime'' \<mapsto> Null, ''budget'' \<mapsto> PStr ''x'', ''revenue'' \<mapsto> PInt 5,
              ''genres'' \<mapsto> Null, ''overview'' \<mapsto> Null],
             [''id'' \<mapsto> PStr ''3'', ''imdb_id'' \<mapsto> PStr ''tt3'', ''title'' \<mapsto> PStr ''C'',
              ''original_language'' \<mapsto> PStr ''en'', ''release_date'' \<mapsto> PStr ''bad'',
              ''runtime'' \<mapsto> Null, ''budget'' \<mapsto> PStr ''x'', ''revenue'' \<mapsto> PInt 5,
              ''genres'' \<mapsto> Null, ''overview'' \<mapsto> Null]]\<rparr>"

text \<open>
  A library for the examples. It converts the cells of the sample tables as pandas does:
  a column of numbers stays a column of integers when every cell is one and becomes a
  column of floats otherwise, the cast to \<^verbatim>\<open>Int64\<close> refuses a float with a fractional
  part, and \<^verbatim>\<open>.str\<close> accepts a column of strings and missing cells. It knows the texts
  of the samples and no other.
\<close>

fun number_sample :: "pyval \<Rightarrow> pyval" where
  "number_sample (PInt i) = PInt i"
| "number_sample (PFloat x) = PFloat x"
| "number_sample (PStr s) =
     (if s = ''1'' then PInt 1 else if s = ''2'' then PInt 2 else if s = ''3'' then PInt 3
      else if s = ''30000000'' then PInt 30000000
      else if s = ''1.5'' then PFloat (3 / 2) else Null)"
| "number_sample v = Null"

fun float_sample :: "pyval \<Rightarrow> pyval" where
  "float_sample (PInt i) = PFloat (of_int i)"
| "float_sample v = v"

fun is_int :: "pyval \<Rightarrow> bool" where
  "is_int (PInt i) = True"
| "is_int v = False"

fun fractional :: "pyval \<Rightarrow> bool" where
  "fractional (PFloat x) = (x \<noteq> of_int \<lfloor>x\<rfloor>)"
| "fractional v = False"

fun int_sample :: "pyval \<Rightarrow> pyval" where
  "int_sample (PInt i) = PInt i"
| "int_sample (PFloat x) = PInt \<lfloor>x\<rfloor>"
| "int_sample v = Null"

fun date_sample :: "pyval \<Rightarrow> pyval" where
  "date_sample (PStr s) = (if s = ''1995-10-30'' then PTimestamp 1995 10 30 else Null)"
| "date_sample v = Null"

fun year_sample :: "pyval \<Rightarrow> pyval" where
  "year_sample (PTimestamp y m d) = PInt y"
| "year_sample v = Null"

definition library_sample :: library where
  "library_sample = \<lparr>ast_literal_eval = literal_eval_sample,
     to_numeric = (\<lambda>s. Inr (if list_all is_int (map number_sample s) then map number_sample s
                             else map (\<lambda>v. float_sample (number_sample v)) s)),
     astype_Int64 = (\<lambda>s. if list_ex fractional s then Inl ConvTypeError else Inr (map int_sample s)),
     to_datetime = (\<lambda>s. Inr (map date_sample s)),
     dt_year = (\<lambda>s. Inr (if list_all is_int (map year_sample s) then map year_sample s
                          else map (\<lambda>v. float_sample (year_sample v)) s)),
     str_accessor = (\<lambda>s. if list_all text_cell s then None else Some ConvAttributeError)\<rparr>"

text \<open>A catalog with the nine required columns and one id that is a number but no integer.\<close>

definition fractional_sample :: frame where
  "fractional_sample = \<lparr>columns = [''id'', ''imdb_id'', ''title'', ''original_language'', ''release_date'',
                                    ''runtime'', ''budget'', ''revenue'', ''genres''],
     rows = [[''id'' \<mapsto> PStr ''1'', ''imdb_id'' \<mapsto> PStr ''tt1'', ''title'' \<mapsto> PStr ''A'',
              ''original_language'' \<mapsto> PStr ''en'', ''release_date'' \<mapsto> PStr ''1995-10-30'',
              ''runtime'' \<mapsto> PFloat 81, ''budget'' \<mapsto> PInt 5, ''revenue'' \<mapsto> PInt 5,
              ''genres'' \<mapsto> PStr ''[]''],
             [''id'' \<mapsto> PStr ''1.5'', ''imdb_id'' \<mapsto> PStr ''tt2'', ''title'' \<mapsto> PStr ''B'',
              ''original_language'' \<mapsto> PStr ''en'', ''release_date'' \<mapsto> PStr ''1995-10-30'',
              ''runtime'' \<mapsto> PFloat 81, ''budget'' \<mapsto> PInt 5, ''revenue'' \<mapsto> PInt 5,
              ''genres'' \<mapsto> PStr ''[]'']]\<rparr>"

definition bare_sample :: frame where
  "bare_sample = \<lparr>columns = [''id'', ''title''], rows = [[''id'' \<mapsto> PStr ''1'', ''title'' \<mapsto> PStr ''A'']]\<rparr>"


definition links_sample :: frame where
  "links_sample = \<lparr>columns = [''movieId'', ''imdbId'', ''tmdbId''],
     rows = [[''movieId'' \<mapsto> PInt 10, ''imdbId'' \<mapsto> PInt 111, ''tmdbId'' \<mapsto> PInt 1],
             [''movieId'' \<mapsto> PInt 11, ''imdbId'' \<mapsto> PInt 222, ''tmdbId'' \<mapsto> PInt 99],
             [''movieId'' \<mapsto> PInt 12, ''imdbId'' \<mapsto> PInt 333, ''tmdbId'' \<mapsto> Null]]\<rparr>"

definition meta_sample :: frame where
  "meta_sample = \<lparr>columns = [''id'', ''imdb_id'', ''title'', ''Drama''],
     rows = [[''id'' \<mapsto> PInt 1, ''imdb_id'' \<mapsto> PStr ''tt001 '', ''title'' \<mapsto> PStr ''A'',
              ''Drama'' \<mapsto> PInt 1],
             [''id'' \<mapsto> PInt 1, ''imdb_id'' \<mapsto> PStr ''tt999'', ''title'' \<mapsto> PStr ''B'',
              ''Drama'' \<mapsto> PInt 0],
             [''id'' \<mapsto> Null, ''imdb_id'' \<mapsto> PStr ''tt777'', ''title'' \<mapsto> PStr ''C'',
              ''Drama'' \<mapsto> PInt 0]]\<rparr>"

definition ratings_sample :: frame where
  "ratings_sample = \<lparr>columns = [''tconst'', ''averageRating'', ''numVotes''],
     rows = [[''tconst'' \<mapsto> PStr '' tt001'', ''averageRating'' \<mapsto> PFloat 7, ''numVotes'' \<mapsto> PInt 100]]\<rparr>"

definition ratings_duplicated :: frame where
  "ratings_duplicated = \<lparr>columns = [''tconst'', ''averageRating'', ''numVotes''],
     rows = [[''tconst'' \<mapsto> PStr ''tt001'', ''averageRating'' \<mapsto> PFloat 7, ''numVotes'' \<mapsto> PInt 100],
             [''tconst'' \<mapsto> PStr ''tt001 '', ''averageRating'' \<mapsto> PFloat 6, ''numVotes'' \<mapsto> PInt 90]]\<rparr>"

section \<open>Properties of the field parser\<close>

lemma parse_genres_total: "\<exists>names. parse_genres literal_eval s = Inr names"
  by (cases s) (auto simp: parse_genres_def split: sum.splits)

text \<open>
  Claim C3. For every input value that is not a string, is the empty string, is a string
  on which \<^verbatim>\<open>ast.literal_eval\<close> raises, or is a string whose value holds no dict with
  a truthy \<^verbatim>\<open>name\<close> entry (in particular a value that cannot be iterated), \<^verbatim>\<open>parse_genres\<close>
  returns the empty list; and on every input whatsoever it returns a list rather than
  raising.
\<close>

theorem parse_genres_malformed_empty:
  "((\<forall>t. s \<noteq> PStr t) \<longrightarrow> parse_genres literal_eval s = Inr []) \<and>
   parse_genres literal_eval (PStr []) = Inr [] \<and>
   ((\<exists>e. literal_eval t = Inl e) \<longrightarrow> parse_genres literal_eval (PStr t) = Inr []) \<and>
   ((\<exists>v. literal_eval u = Inr v \<and> (\<forall>ds. py_iter v = Inr ds \<longrightarrow> (\<forall>d \<in> set ds. \<not> has_name d)))
      \<longrightarrow> parse_genres literal_eval (PStr u) = Inr []) \<and>
   (\<exists>names. parse_genres literal_eval s = Inr names)"
proof -
  have not_str: "(\<forall>t. s \<noteq> PStr t) \<longrightarrow> parse_genres literal_eval s = Inr []"
    by (cases s) (simp_all add: parse_genres_def)
  have empty: "parse_genres literal_eval (PStr []) = Inr []"
    by (simp add: parse_genres_def)
  have raises: "(\<exists>e. literal_eval t = Inl e) \<longrightarrow> parse_genres literal_eval (PStr t) = Inr []"
    by (auto simp: parse_genres_def parse_genres_try_def)
  have no_records:
    "(\<exists>v. literal_eval u = Inr v \<and> (\<forall>ds. py_iter v = Inr ds \<longrightarrow> (\<forall>d \<in> set ds. \<not> has_name d)))
       \<longrightarrow> parse_genres literal_eval (PStr u) = Inr []"
  proof
    assume "\<exists>v. literal_eval u = Inr v \<and> (\<forall>ds. py_iter v = Inr ds \<longrightarrow> (\<forall>d \<in> set ds. \<not> has_name d))"
    then obtain v where v: "literal_eval u = Inr v"
      and none: "\<forall>ds. py_iter v = Inr ds \<longrightarrow> (\<forall>d \<in> set ds. \<not> has_name d)"
      by blast
    show "parse_genres literal_eval (PStr u) = Inr []"
    proof (cases "py_iter v")
      case (Inl e)
      with v show ?thesis by (simp add: parse_genres_def parse_genres_try_def)
    next
      case (Inr ds)
      with none have "filter has_name ds = []" by (simp add: filter_empty_conv)
      with v Inr show ?thesis by (simp add: parse_genres_def parse_genres_try_def)
    qed
  qed
  from not_str empty raises no_records parse_genres_total show ?thesis by blast
qed

theorem parse_genres_malformed_empty_witness:
  "(\<forall>t. PFloat 1 \<noteq> PStr t) \<and> parse_genres literal_eval_sample (PFloat 1) = Inr [] \<and>
   literal_eval_sample ''not a list'' = Inl SyntaxError \<and>
   parse_genres literal_eval_sample (PStr ''not a list'') = Inr [] \<and>
   literal_eval_sample ''[{'id': 18}, 7, {'name': None}]''
     = Inr (PList [PDict [(PStr ''id'', PInt 18)], PInt 7, PDict [(PStr ''name'', Null)]]) \<and>
   parse_genres literal_eval_sample (PStr ''[{'id': 18}, 7, {'name': None}]'') = Inr []"
  using parse_genres_malformed_empty
    [of "PFloat 1" literal_eval_sample "''not a list''" "''[{'id': 18}, 7, {'name': None}]''"]
  by (simp add: literal_eval_sample_def dict_get_def)

section \<open>Sequencing, assignments and the heap\<close>

lemma and_then_Inl [simp]: "and_then (Inl e) k = Inl e"
  by (simp add: and_then_def)

lemma and_then_Inr [simp]: "and_then (Inr x) k = k x"
  by (simp add: and_then_def)

lemma and_then_eq_Inr: "and_then m k = Inr y \<longleftrightarrow> (\<exists>x. m = Inr x \<and> k x = Inr y)"
  by (cases m) simp_all

lemma and_then_eq_Inl: "and_then m k = Inl e \<longleftrightarrow> m = Inl e \<or> (\<exists>x. m = Inr x \<and> k x = Inl e)"
  by (cases m) simp_all


lemma pandas_call_eq_Inl: "pandas_call res = Inl e \<longleftrightarrow> (\<exists>c. res = Inl c \<and> e = raised c)"
  by (cases res) (auto simp: pandas_call_def)

lemma raised_not_KeyError [simp]: "raised c \<noteq> KeyError ms"
  by (cases c) simp_all

lemma length_reindex [simp]: "length (reindex n vs) = n"
  by (simp add: reindex_def)

lemma reindex_same: "length vs = n \<Longrightarrow> reindex n vs = vs"
  by (auto simp: reindex_def intro!: nth_equalityI)

lemma columns_setitem_column [simp]: "columns (setitem_column c vs f) = add_column c (columns f)"
  by (simp add: setitem_column_def)

lemma length_rows_setitem_column [simp]: "length (rows (setitem_column c vs f)) = length (rows f)"
  by (simp add: setitem_column_def)

lemma setitem_column_map:
  "setitem_column c (map g (map (\<lambda>r. cell r src) (rows f))) f
     = \<lparr>columns = add_column c (columns f), rows = map (\<lambda>r. r(c \<mapsto> g (cell r src))) (rows f)\<rparr>"
proof -
  have "map (\<lambda>(r, v). r(c \<mapsto> v)) (zip rs (map g (map (\<lambda>r. cell r src) rs)))
          = map (\<lambda>r. r(c \<mapsto> g (cell r src))) rs" for rs :: "row list"
    by (induction rs) simp_all
  then show ?thesis by (simp add: setitem_column_def reindex_same)
qed

text \<open>When an assignment from a column returns, and when it raises.\<close>

lemma assign_from_eq_Inr:
  "assign_from c src g f = Inr f' \<longleftrightarrow>
   src \<in> set (columns f) \<and> (\<exists>vs. g (map (\<lambda>r. cell r src) (rows f)) = Inr vs \<and> f' = setitem_column c vs f)"
  by (auto simp: assign_from_def getitem_column_def and_then_eq_Inr)

lemma assign_from_eq_Inl:
  "assign_from c src g f = Inl e \<longleftrightarrow>
   (src \<notin> set (columns f) \<and> e = KeyError [src]) \<or>
   (src \<in> set (columns f) \<and> g (map (\<lambda>r. cell r src) (rows f)) = Inl e)"
  by (auto simp: assign_from_def getitem_column_def and_then_eq_Inl)

lemma alloc_Inr [simp]: "alloc h (Inr f) = (h @ [f], Inr (length h))"
  by (simp add: alloc_def)

lemma alloc_Inl [simp]: "alloc h (Inl e) = (h, Inl e)"
  by (simp add: alloc_def)

lemma update_Inr [simp]: "update h a (Inr f) = (h[a := f], Inr a)"
  by (simp add: update_def)

lemma update_Inl [simp]: "update h a (Inl e) = (h, Inl e)"
  by (simp add: update_def)

lemma then_h_Inr [simp]: "then_h (h, Inr a) k = k h a"
  by (simp add: then_h_def)

lemma then_h_Inl [simp]: "then_h (h, Inl e) k = (h, Inl e)"
  by (simp add: then_h_def)

lemma exec_pure_append: "exec_pure (ss @ ts) f = and_then (exec_pure ss f) (exec_pure ts)"
proof (induction ss arbitrary: f)
  case Nil
  then show ?case by simp
next
  case (Cons s ss)
  obtain eff g where s: "s = (eff, g)" by (cases s)
  show ?case by (cases "g f") (simp_all add: s Cons.IH)
qed

text \<open>The heap run returns a reference to the value the pure run computes.\<close>

lemma exec_heap_pure:
  "a < length h \<Longrightarrow> exec_heap ss h a = (h', res) \<Longrightarrow>
   (case res of Inl e \<Rightarrow> exec_pure ss (h ! a) = Inl e
              | Inr a' \<Rightarrow> a' < length h' \<and> exec_pure ss (h ! a) = Inr (h' ! a'))"
proof (induction ss arbitrary: h a)
  case Nil
  then show ?case by auto
next
  case (Cons s ss)
  obtain eff g where s: "s = (eff, g)" by (cases s)
  show ?case
  proof (cases "g (h ! a)")
    case (Inl e)
    with Cons.prems s show ?thesis by (cases eff) auto
  next
    case (Inr f)
    show ?thesis
    proof (cases eff)
      case Fresh
      with Cons.prems s Inr have "exec_heap ss (h @ [f]) (length h) = (h', res)" by simp
      from Cons.IH [OF _ this] s Inr show ?thesis by (auto split: sum.splits)
    next
      case InPlace
      with Cons.prems s Inr have "exec_heap ss (h[a := f]) a = (h', res)" by simp
      from Cons.IH [OF _ this] Cons.prems(1) s Inr show ?thesis by (auto split: sum.splits)
    qed
  qed
qed

text \<open>Statements running on a reference at or above \<open>n\<close> leave the first \<open>n\<close> objects alone.\<close>

lemma exec_heap_frame:
  "n \<le> a \<Longrightarrow> n \<le> length h \<Longrightarrow> exec_heap ss h a = (h', res) \<Longrightarrow>
   take n h' = take n h \<and> n \<le> length h' \<and> (\<forall>a'. res = Inr a' \<longrightarrow> n \<le> a')"
proof (induction ss arbitrary: h a)
  case Nil
  then show ?case by auto
next
  case (Cons s ss)
  obtain eff g where s: "s = (eff, g)" by (cases s)
  show ?case
  proof (cases "g (h ! a)")
    case (Inl e)
    with Cons.prems s show ?thesis by (cases eff) auto
  next
    case (Inr f)
    show ?thesis
    proof (cases eff)
      case Fresh
      with Cons.prems s Inr have "exec_heap ss (h @ [f]) (length h) = (h', res)" by simp
      from Cons.IH [OF _ _ this] Cons.prems(2) show ?thesis by simp
    next
      case InPlace
      with Cons.prems s Inr have "exec_heap ss (h[a := f]) a = (h', res)" by simp
      from Cons.IH [OF _ _ this] Cons.prems(1,2) show ?thesis by simp
    qed
  qed
qed

lemma exec_pure_Cons_Inr:
  "exec_pure ((eff, g) # ss) f = Inr out \<longleftrightarrow> (\<exists>f'. g f = Inr f' \<and> exec_pure ss f' = Inr out)"
  by (cases "g f") simp_all

lemma exec_pure_Cons_Inl:
  "exec_pure ((eff, g) # ss) f = Inl e \<longleftrightarrow> g f = Inl e \<or> (\<exists>f'. g f = Inr f' \<and> exec_pure ss f' = Inl e)"
  by (cases "g f") simp_all

lemma exec_pure_invariant:
  assumes step: "\<And>s f f'. s \<in> set ss \<Longrightarrow> I f \<Longrightarrow> snd s f = Inr f' \<Longrightarrow> I f'"
    and "I f" and "exec_pure ss f = Inr out"
  shows "I out"
  using assms
proof (induction ss arbitrary: f)
  case Nil
  then show ?case by simp
next
  case (Cons s ss)
  obtain eff g where s: "s = (eff, g)" by (cases s)
  from Cons.prems(3) obtain f' where f': "g f = Inr f'" and rest: "exec_pure ss f' = Inr out"
    unfolding s exec_pure_Cons_Inr by blast
  have mem: "s \<in> set (s # ss)" by simp
  have sf: "snd s f = Inr f'" unfolding s using f' by simp
  have If': "I f'" by (rule Cons.prems(1) [OF mem Cons.prems(2) sf])
  show ?case
  proof (rule Cons.IH [OF _ If' rest])
    fix t h h' assume t: "t \<in> set ss" and h: "I h" and th: "snd t h = Inr h'"
    from t have "t \<in> set (s # ss)" by simp
    then show "I h'" using h th by (rule Cons.prems(1))
  qed
qed

lemma exec_pure_raises:
  assumes step: "\<And>s f. s \<in> set ss \<Longrightarrow> I f \<Longrightarrow>
                   (\<forall>e. snd s f = Inl e \<longrightarrow> E e) \<and> (\<forall>f'. snd s f = Inr f' \<longrightarrow> I f')"
    and "I f" and "exec_pure ss f = Inl e"
  shows "E e"
  using assms
proof (induction ss arbitrary: f)
  case Nil
  then show ?case by simp
next
  case (Cons s ss)
  obtain eff g where s: "s = (eff, g)" by (cases s)
  have mem: "s \<in> set (s # ss)" by simp
  have st: "(\<forall>e. g f = Inl e \<longrightarrow> E e) \<and> (\<forall>f'. g f = Inr f' \<longrightarrow> I f')"
    using Cons.prems(1) [OF mem Cons.prems(2)] unfolding s by simp
  have tl: "\<And>t h. t \<in> set ss \<Longrightarrow> I h \<Longrightarrow>
              (\<forall>e. snd t h = Inl e \<longrightarrow> E e) \<and> (\<forall>f'. snd t h = Inr f' \<longrightarrow> I f')"
  proof -
    fix t h assume t: "t \<in> set ss" and h: "I h"
    from t have "t \<in> set (s # ss)" by simp
    then show "(\<forall>e. snd t h = Inl e \<longrightarrow> E e) \<and> (\<forall>f'. snd t h = Inr f' \<longrightarrow> I f')"
      using h by (rule Cons.prems(1))
  qed
  from Cons.prems(3) have "g f = Inl e \<or> (\<exists>f'. g f = Inr f' \<and> exec_pure ss f' = Inl e)"
    unfolding s exec_pure_Cons_Inl .
  then show ?case
  proof
    assume "g f = Inl e"
    with st show ?thesis by blast
  next
    assume "\<exists>f'. g f = Inr f' \<and> exec_pure ss f' = Inl e"
    then obtain f' where f': "g f = Inr f'" and rest: "exec_pure ss f' = Inl e" by blast
    from st f' have If': "I f'" by blast
    show ?thesis by (rule Cons.IH [OF tl If' rest])
  qed
qed

lemma cell_restrict [simp]: "c \<in> A \<Longrightarrow> cell (r |` A) c = cell r c"
  by (simp add: cell_def)

lemma cell_upd_other [simp]: "c \<noteq> k \<Longrightarrow> cell (r(c \<mapsto> v)) k = cell r k"
  by (simp add: cell_def)

lemma cell_upd_same [simp]: "cell (r(c \<mapsto> v)) c = v"
  by (simp add: cell_def)

lemma missing_columns_Nil: "missing_columns df = [] \<longleftrightarrow> set required \<subseteq> set (columns df)"
  by (auto simp: missing_columns_def filter_empty_conv)

lemma genre_lst_cell_total: "\<exists>names. genre_lst_cell lib v = Inr (PList names)"
  using parse_genres_total [of "ast_literal_eval lib" v] by (auto simp: genre_lst_cell_def)

text \<open>Columns after each statement.\<close>

lemma add_column_mono: "set cs \<subseteq> set (add_column c cs)"
  by (auto simp: add_column_def)

lemma add_column_mem: "c \<in> set (add_column c cs)"
  by (auto simp: add_column_def)

lemma assign_from_step:
  assumes src: "src \<in> set (columns f)" and g: "\<And>s e. g s = Inl e \<Longrightarrow> E e"
  shows "(\<forall>e. assign_from c src g f = Inl e \<longrightarrow> E e) \<and>
         (\<forall>f'. assign_from c src g f = Inr f' \<longrightarrow>
            set (columns f) \<subseteq> set (columns f') \<and> c \<in> set (columns f'))"
proof (intro conjI allI impI)
  fix e assume "assign_from c src g f = Inl e"
  with src have "g (map (\<lambda>r. cell r src) (rows f)) = Inl e" by (simp add: assign_from_eq_Inl)
  then show "E e" by (rule g)
next
  fix f' assume "assign_from c src g f = Inr f'"
  then have "columns f' = add_column c (columns f)" by (auto simp: assign_from_eq_Inr)
  then show "set (columns f) \<subseteq> set (columns f')" and "c \<in> set (columns f')"
    using add_column_mono [of "columns f" c] add_column_mem [of c "columns f"] by simp_all
qed

section \<open>Properties of the metadata normalizer\<close>

lemma required_mem:
  "''id'' \<in> set required" "''imdb_id'' \<in> set required" "''title'' \<in> set required"
  "''original_language'' \<in> set required" "''release_date'' \<in> set required"
  "''runtime'' \<in> set required" "''budget'' \<in> set required" "''revenue'' \<in> set required"
  "''genres'' \<in> set required"
  by (simp_all add: required_def)

lemma map_err_returns:
  "(\<And>x. x \<in> set xs \<Longrightarrow> \<exists>y. g x = Inr y) \<Longrightarrow> \<exists>ys. map_err g xs = Inr ys"
proof (induction xs)
  case Nil
  then show ?case by simp
next
  case (Cons x xs)
  from Cons.prems [of x] obtain y where y: "g x = Inr y" by auto
  from Cons.IH Cons.prems obtain ys where "map_err g xs = Inr ys" by auto
  with y show ?case by simp
qed

lemma conversion_error_not_KeyError: "conversion_error e \<Longrightarrow> e \<noteq> KeyError ms"
  by (auto simp: conversion_error_def)

lemma numeric_Int64_raises: "numeric_Int64 lib s = Inl e \<Longrightarrow> conversion_error e"
  by (auto simp: numeric_Int64_def and_then_eq_Inl pandas_call_eq_Inl conversion_error_def)

lemma pandas_call_raises: "pandas_call res = Inl e \<Longrightarrow> conversion_error e"
  by (auto simp: pandas_call_eq_Inl conversion_error_def)

lemma str_strip_series_raises: "str_strip_series lib s = Inl e \<Longrightarrow> conversion_error e"
  by (auto simp: str_strip_series_def conversion_error_def split: option.splits)

lemma genre_lst_series_raises: "map_err (genre_lst_cell lib) s = Inl e \<Longrightarrow> conversion_error e"
  using map_err_returns [of s "genre_lst_cell lib"] genre_lst_cell_total [of lib] by fastforce

text \<open>What each kind of statement of the body does to the columns, and what it can raise.\<close>

lemma stmt_assign:
  assumes "src \<in> set (columns f)" and "\<And>s e. g s = Inl e \<Longrightarrow> conversion_error e"
    and "S \<subseteq> set (columns f)"
  shows "(\<forall>e. assign_from c src g f = Inl e \<longrightarrow> conversion_error e) \<and>
         (\<forall>f'. assign_from c src g f = Inr f' \<longrightarrow> insert c S \<subseteq> set (columns f'))"
proof -
  have "(\<forall>e. assign_from c src g f = Inl e \<longrightarrow> conversion_error e) \<and>
        (\<forall>f'. assign_from c src g f = Inr f' \<longrightarrow>
           set (columns f) \<subseteq> set (columns f') \<and> c \<in> set (columns f'))"
    by (rule assign_from_step [where E = conversion_error]) (fact assms(1), fact assms(2))
  with assms(3) show ?thesis by blast
qed

lemma stmt_getitem:
  assumes "set cs \<subseteq> set (columns f)"
  shows "getitem_columns cs f = Inr \<lparr>columns = cs, rows = map (\<lambda>r. r |` set cs) (rows f)\<rparr>"
  using assms by (auto simp: getitem_columns_def)

lemma stmt_filter_isin:
  assumes "c \<in> set (columns f)"
  shows "filter_isin c ids f
           = Inr \<lparr>columns = columns f, rows = filter (\<lambda>r. isin ids (cell r c)) (rows f)\<rparr>"
  using assms by (simp add: filter_isin_def)

lemma stmt_drop:
  assumes "set cs \<subseteq> set (columns f)"
  shows "drop_columns cs f
           = Inr \<lparr>columns = filter (\<lambda>c. c \<notin> set cs) (columns f),
                  rows = map (\<lambda>r. r |` (- set cs)) (rows f)\<rparr>"
  using assms by (auto simp: drop_columns_def)

lemma stmt_sort:
  assumes "c \<in> set (columns f)"
  shows "\<exists>out. sort_values c f = Inr out"
  using assms by (simp add: sort_values_def)

lemma keeps_assign:
  "src \<in> S \<Longrightarrow> (\<And>col e. g col = Inl e \<Longrightarrow> conversion_error e) \<Longrightarrow>
   keeps S (InPlace, assign_from c src g)"
  unfolding keeps_def by blast

lemma keeps_filter: "''id'' \<in> S \<Longrightarrow> keeps S (Fresh, filter_isin ''id'' ids)"
  unfolding keeps_def by blast

lemma keeps_step:
  assumes k: "keeps S s" and S: "S \<subseteq> set (columns f)"
  shows "(\<forall>e. snd s f = Inl e \<longrightarrow> conversion_error e) \<and>
         (\<forall>f'. snd s f = Inr f' \<longrightarrow> S \<subseteq> set (columns f'))"
proof -
  from k consider
    (assign) c src g where "s = (InPlace, assign_from c src g)" "src \<in> S"
      "\<And>col e. g col = Inl e \<Longrightarrow> conversion_error e"
  | (filter) ids where "s = (Fresh, filter_isin ''id'' ids)" "''id'' \<in> S"
    unfolding keeps_def by blast
  then show ?thesis
  proof cases
    case assign
    from assign(2) S have src: "src \<in> set (columns f)" by blast
    from stmt_assign [OF src assign(3) S, where c = c] show ?thesis by (simp add: assign(1))
  next
    case filter
    from filter(2) S have "''id'' \<in> set (columns f)" by blast
    from stmt_filter_isin [OF this, of ids] S show ?thesis by (simp add: filter(1))
  qed
qed

lemma keeps_raises:
  assumes "\<forall>s \<in> set ss. keeps S s" and "S \<subseteq> set (columns f)" and "exec_pure ss f = Inl e"
  shows "conversion_error e"
proof (rule exec_pure_raises [where I = "\<lambda>f. S \<subseteq> set (columns f)" and E = conversion_error,
         OF _ assms(2) assms(3)])
  fix s and f :: frame assume "s \<in> set ss" and S: "S \<subseteq> set (columns f)"
  with assms(1) have "keeps S s" by blast
  from keeps_step [OF this S]
  show "(\<forall>e. snd s f = Inl e \<longrightarrow> conversion_error e) \<and> (\<forall>f'. snd s f = Inr f' \<longrightarrow> S \<subseteq> set (columns f'))" .
qed

lemma keeps_columns:
  assumes "\<forall>s \<in> set ss. keeps S s" and "S \<subseteq> set (columns f)" and "exec_pure ss f = Inr f'"
  shows "S \<subseteq> set (columns f')"
proof (rule exec_pure_invariant [where I = "\<lambda>f. S \<subseteq> set (columns f)", OF _ assms(2) assms(3)])
  fix s and f f' :: frame assume "s \<in> set ss" and S: "S \<subseteq> set (columns f)" and sf: "snd s f = Inr f'"
  with assms(1) have "keeps S s" by blast
  from keeps_step [OF this S] sf show "S \<subseteq> set (columns f')" by blast
qed

text \<open>
  Once no required column is missing, no statement of the body looks up a label that is
  not there: whatever the body raises is the exception of a conversion.
\<close>

lemma ftm_body_raises:
  assumes miss: "missing_columns df = []" and run: "exec_pure (ftm_body lib movie_ids) df = Inl e"
  shows "conversion_error e"
proof -
  define p1 :: "stmt list" where "p1 =
     [(InPlace, assign_from ''id'' ''id'' (numeric_Int64 lib)),
      (Fresh, filter_isin ''id'' movie_ids),
      (InPlace, assign_from ''release_date'' ''release_date'' (\<lambda>s. pandas_call (to_datetime lib s))),
      (InPlace, assign_from ''year'' ''release_date'' (\<lambda>s. pandas_call (dt_year lib s)))]"
  define p2 :: "stmt list" where "p2 =
     [(InPlace, assign_from ''year'' ''year'' (numeric_Int64 lib)),
      (InPlace, assign_from ''runtime'' ''runtime'' (\<lambda>s. pandas_call (to_numeric lib s))),
      (InPlace, assign_from ''budget'' ''budget'' (\<lambda>s. pandas_call (to_numeric lib s))),
      (InPlace, assign_from ''revenue'' ''revenue'' (\<lambda>s. pandas_call (to_numeric lib s))),
      (InPlace, assign_from ''imdb_id'' ''imdb_id'' (str_strip_series lib)),
      (InPlace, assign_from ''title'' ''title'' (str_strip_series lib)),
      (InPlace, assign_from ''original_language'' ''original_language'' (str_strip_series lib)),
      (InPlace, assign_from ''genre_lst'' ''genres'' (map_err (genre_lst_cell lib)))]"
  define p3 :: "stmt list" where "p3 = [(InPlace, drop_columns [''genres'']), (Fresh, sort_values ''id'')]"
  have body: "ftm_body lib movie_ids = (Fresh, getitem_columns required) # (Fresh, Inr) # p1 @ p2 @ p3"
    by (simp add: ftm_body_def p1_def p2_def p3_def)
  define S2 where "S2 = insert ''year'' (set required)"
  have k1: "\<forall>s \<in> set p1. keeps (set required) s"
    unfolding p1_def
    by (simp add: keeps_assign keeps_filter required_mem numeric_Int64_raises pandas_call_raises)
  have k2: "\<forall>s \<in> set p2. keeps S2 s"
    unfolding p2_def S2_def
    by (simp add: keeps_assign required_mem numeric_Int64_raises pandas_call_raises
          str_strip_series_raises genre_lst_series_raises)
  from miss have sub: "set required \<subseteq> set (columns df)" by (simp add: missing_columns_Nil)
  define f1 where "f1 = \<lparr>columns = required, rows = map (\<lambda>r. r |` set required) (rows df)\<rparr>"
  have sub1: "set required \<subseteq> set (columns f1)" by (simp add: f1_def)
  from run have r1: "exec_pure (p1 @ p2 @ p3) f1 = Inl e"
    unfolding body exec_pure_Cons_Inl by (simp add: stmt_getitem [OF sub] f1_def)
  then consider (a) "exec_pure p1 f1 = Inl e"
    | (b) f5 where "exec_pure p1 f1 = Inr f5" "exec_pure (p2 @ p3) f5 = Inl e"
    by (auto simp: exec_pure_append and_then_eq_Inl)
  then show ?thesis
  proof cases
    case a
    from keeps_raises [OF k1 sub1 a] show ?thesis .
  next
    case b
    from keeps_columns [OF k1 sub1 b(1)] have sub5: "set required \<subseteq> set (columns f5)" .
    have "''year'' \<in> set (columns f5)"
    proof -
      have "exec_pure p1 f1 = and_then (exec_pure (butlast p1) f1) (exec_pure [last p1])"
        using exec_pure_append [of "butlast p1" "[last p1]" f1] by (simp add: p1_def)
      with b(1) obtain f4 where "exec_pure [last p1] f4 = Inr f5"
        by (auto simp: and_then_eq_Inr)
      then have "assign_from ''year'' ''release_date'' (\<lambda>s. pandas_call (dt_year lib s)) f4 = Inr f5"
        by (auto simp: p1_def and_then_eq_Inr)
      then have "columns f5 = add_column ''year'' (columns f4)" by (auto simp: assign_from_eq_Inr)
      then show ?thesis by (simp add: add_column_mem)
    qed
    with sub5 have sub5': "S2 \<subseteq> set (columns f5)" by (simp add: S2_def)
    from b(2) consider (c) "exec_pure p2 f5 = Inl e"
      | (d) f13 where "exec_pure p2 f5 = Inr f13" "exec_pure p3 f13 = Inl e"
      by (auto simp: exec_pure_append and_then_eq_Inl)
    then show ?thesis
    proof cases
      case c
      from keeps_raises [OF k2 sub5' c] show ?thesis .
    next
      case d
      from keeps_columns [OF k2 sub5' d(1)] have "S2 \<subseteq> set (columns f13)" .
      with required_mem have g: "set [''genres''] \<subseteq> set (columns f13)"
        and i: "''id'' \<in> set (columns f13)" by (auto simp: S2_def)
      from i have "''id'' \<in> set (filter (\<lambda>c. c \<notin> set [''genres'']) (columns f13))" by simp
      then have "\<exists>out. sort_values ''id'' \<lparr>columns = filter (\<lambda>c. c \<notin> set [''genres'']) (columns f13),
                   rows = map (\<lambda>r. r |` (- set [''genres''])) (rows f13)\<rparr> = Inr out"
        by (intro stmt_sort) simp
      with d(2) stmt_drop [OF g] have False by (auto simp: p3_def)
      then show ?thesis ..
    qed
  qed
qed

lemma exec_heap_fresh_pure:
  assumes "exec_heap ((Fresh, g) # ss) h a = (h', res)"
  shows "case res of Inl e \<Rightarrow> exec_pure ((Fresh, g) # ss) (h ! a) = Inl e
                   | Inr a' \<Rightarrow> a' < length h' \<and> exec_pure ((Fresh, g) # ss) (h ! a) = Inr (h' ! a')"
proof (cases "g (h ! a)")
  case (Inl e)
  with assms show ?thesis by auto
next
  case (Inr f)
  with assms have run: "exec_heap ss (h @ [f]) (length h) = (h', res)" by simp
  have "length h < length (h @ [f])" by simp
  from exec_heap_pure [OF this run] Inr show ?thesis by (auto split: sum.splits)
qed

lemma exec_heap_fresh_frame:
  assumes "exec_heap ((Fresh, g) # ss) h a = (h', res)"
  shows "take (length h) h' = h \<and> (\<forall>a'. res = Inr a' \<longrightarrow> length h \<le> a')"
proof (cases "g (h ! a)")
  case (Inl e)
  with assms show ?thesis by auto
next
  case (Inr f)
  with assms have run: "exec_heap ss (h @ [f]) (length h) = (h', res)" by simp
  from exec_heap_frame [OF _ _ run, of "length h"] show ?thesis by simp
qed

lemma ftm_body_Cons: "\<exists>ss. ftm_body lib movie_ids = (Fresh, getitem_columns required) # ss"
  by (simp add: ftm_body_def)

lemma filter_transform_metadata_h_pure:
  assumes "filter_transform_metadata_h lib h df movie_ids = (h', res)"
  shows "case res of Inl e \<Rightarrow> filter_transform_metadata lib (h ! df) movie_ids = Inl e
                   | Inr a \<Rightarrow> a < length h' \<and> filter_transform_metadata lib (h ! df) movie_ids = Inr (h' ! a)"
proof (cases "missing_columns (h ! df) = []")
  case False
  with assms show ?thesis
    by (auto simp: filter_transform_metadata_h_def filter_transform_metadata_def)
next
  case True
  obtain ss where ss: "ftm_body lib movie_ids = (Fresh, getitem_columns required) # ss"
    using ftm_body_Cons by blast
  from assms True have "exec_heap ((Fresh, getitem_columns required) # ss) h df = (h', res)"
    by (simp add: filter_transform_metadata_h_def ss)
  from exec_heap_fresh_pure [OF this] True show ?thesis
    by (cases res) (simp_all add: filter_transform_metadata_def ss del: exec_pure.simps)
qed

lemma filter_transform_metadata_h_frame:
  assumes "filter_transform_metadata_h lib h df movie_ids = (h', res)"
  shows "take (length h) h' = h \<and> (\<forall>a. res = Inr a \<longrightarrow> length h \<le> a \<and> a < length h')"
proof (cases "missing_columns (h ! df) = []")
  case False
  with assms show ?thesis by (auto simp: filter_transform_metadata_h_def)
next
  case True
  obtain ss where ss: "ftm_body lib movie_ids = (Fresh, getitem_columns required) # ss"
    using ftm_body_Cons by blast
  from assms True have run: "exec_heap ((Fresh, getitem_columns required) # ss) h df = (h', res)"
    by (simp add: filter_transform_metadata_h_def ss)
  from exec_heap_fresh_frame [OF run] exec_heap_fresh_pure [OF run] show ?thesis
    by (auto split: sum.splits)
qed

lemma sort_missing_columns:
  "set (sort (missing_columns df)) = set required - set (columns df)"
  "sorted (sort (missing_columns df))" "distinct (sort (missing_columns df))"
proof -
  have "distinct required" by (simp add: required_def)
  then show "distinct (sort (missing_columns df))" by (simp add: missing_columns_def)
  show "set (sort (missing_columns df)) = set required - set (columns df)"
    by (auto simp: missing_columns_def)
  show "sorted (sort (missing_columns df))" by simp
qed

text \<open>
  Claim C4. \<^verbatim>\<open>filter_transform_metadata\<close> raises the \<^verbatim>\<open>KeyError\<close> of its column check if and
  only if one of the nine required columns is not a column of the input table; the error
  then carries exactly the missing required labels (sorted, each once), and the heap is
  returned as it was: nothing was allocated and nothing was changed.
\<close>

theorem filter_transform_metadata_schema_error:
  "((\<exists>ms. snd (filter_transform_metadata_h lib h df movie_ids) = Inl (KeyError ms))
      \<longleftrightarrow> \<not> set required \<subseteq> set (columns (h ! df))) \<and>
   (\<not> set required \<subseteq> set (columns (h ! df)) \<longrightarrow>
      (\<exists>ms. filter_transform_metadata_h lib h df movie_ids = (h, Inl (KeyError ms)) \<and>
            set ms = set required - set (columns (h ! df)) \<and> sorted ms \<and> distinct ms))"
proof (cases "missing_columns (h ! df) = []")
  case True
  then have sub: "set required \<subseteq> set (columns (h ! df))" by (simp add: missing_columns_Nil)
  obtain h' res where run: "filter_transform_metadata_h lib h df movie_ids = (h', res)"
    by (cases "filter_transform_metadata_h lib h df movie_ids")
  have "res \<noteq> Inl (KeyError ms)" for ms
  proof
    assume "res = Inl (KeyError ms)"
    with filter_transform_metadata_h_pure [OF run]
    have "filter_transform_metadata lib (h ! df) movie_ids = Inl (KeyError ms)" by simp
    with True have "exec_pure (ftm_body lib movie_ids) (h ! df) = Inl (KeyError ms)"
      by (simp add: filter_transform_metadata_def)
    from ftm_body_raises [OF True this] show False
      using conversion_error_not_KeyError by blast
  qed
  with run sub show ?thesis by simp
next
  case False
  then have nsub: "\<not> set required \<subseteq> set (columns (h ! df))" by (simp add: missing_columns_Nil)
  from False have run: "filter_transform_metadata_h lib h df movie_ids
      = (h, Inl (KeyError (sort (missing_columns (h ! df)))))"
    by (simp add: filter_transform_metadata_h_def)
  with nsub sort_missing_columns [of "h ! df"] show ?thesis by auto
qed

theorem filter_transform_metadata_schema_error_witness:
  "\<not> set required \<subseteq> set (columns ([bare_sample] ! 0)) \<and>
   (\<exists>ms. filter_transform_metadata_h library_sample [bare_sample] 0 [1, 2]
            = ([bare_sample], Inl (KeyError ms)) \<and>
          set ms = set required - set (columns ([bare_sample] ! 0)) \<and> sorted ms \<and> distinct ms) \<and>
   set required \<subseteq> set (columns ([catalog_sample] ! 0)) \<and>
   \<not> (\<exists>ms. snd (filter_transform_metadata_h library_sample [catalog_sample] 0 [1, 2])
            = Inl (KeyError ms))"
  using filter_transform_metadata_schema_error [of library_sample "[bare_sample]" 0 "[1, 2]"]
    filter_transform_metadata_schema_error [of library_sample "[catalog_sample]" 0 "[1, 2]"]
  by (simp add: required_def bare_sample_def catalog_sample_def)

text \<open>
  Claim C8. The ids are converted as one column, before any row is filtered. When the nine
  required columns are present and the cast of the converted ids to \<^verbatim>\<open>Int64\<close> raises
  (pandas refuses to cast a column that holds a number with a fractional part),
  \<^verbatim>\<open>filter_transform_metadata\<close> raises that exception, whatever the other rows and
  \<open>movie_ids\<close> are. No table is returned: the row with the offending id is not dropped, and
  the rows whose ids are integers of \<open>movie_ids\<close> are lost with it.
\<close>

theorem filter_transform_metadata_aborts:
  assumes "set required \<subseteq> set (columns df)"
    and "to_numeric lib (map (\<lambda>r. cell r ''id'') (rows df)) = Inr nums"
    and "astype_Int64 lib nums = Inl e"
  shows "filter_transform_metadata lib df movie_ids = Inl (raised e)"
proof -
  from assms(1) have miss: "missing_columns df = []" by (simp add: missing_columns_Nil)
  define f1 where "f1 = \<lparr>columns = required, rows = map (\<lambda>r. r |` set required) (rows df)\<rparr>"
  have col: "map (\<lambda>r. cell r ''id'') (rows f1) = map (\<lambda>r. cell r ''id'') (rows df)"
    by (simp add: f1_def required_mem)
  have "numeric_Int64 lib (map (\<lambda>r. cell r ''id'') (rows f1)) = Inl (raised e)"
    using assms(2,3) by (simp add: col numeric_Int64_def pandas_call_def)
  moreover have "''id'' \<in> set (columns f1)" by (simp add: f1_def required_mem)
  ultimately have "assign_from ''id'' ''id'' (numeric_Int64 lib) f1 = Inl (raised e)"
    by (simp add: assign_from_eq_Inl)
  then have "exec_pure (ftm_body lib movie_ids) df = Inl (raised e)"
    by (simp add: ftm_body_def stmt_getitem [OF assms(1)] f1_def)
  with miss show ?thesis by (simp add: filter_transform_metadata_def)
qed

theorem filter_transform_metadata_aborts_witness:
  "set required \<subseteq> set (columns fractional_sample) \<and>
   to_numeric library_sample (map (\<lambda>r. cell r ''id'') (rows fractional_sample))
     = Inr [PFloat 1, PFloat (3 / 2)] \<and>
   astype_Int64 library_sample [PFloat 1, PFloat (3 / 2)] = Inl ConvTypeError \<and>
   filter_transform_metadata library_sample fractional_sample [1] = Inl TypeError"
proof -
  have a: "set required \<subseteq> set (columns fractional_sample)"
    by (simp add: required_def fractional_sample_def)
  have b: "to_numeric library_sample (map (\<lambda>r. cell r ''id'') (rows fractional_sample))
             = Inr [PFloat 1, PFloat (3 / 2)]"
    by (simp add: library_sample_def fractional_sample_def cell_def)
  have "\<lfloor>3 / 2 :: rat\<rfloor> = 1" by (rule floor_unique) simp_all
  then have c: "astype_Int64 library_sample [PFloat 1, PFloat (3 / 2)] = Inl ConvTypeError"
    by (simp add: library_sample_def)
  from filter_transform_metadata_aborts [OF a b c, of "[1]"] a b c show ?thesis by simp
qed

section \<open>Properties of the categorical expander\<close>

lemma list_all2_set2: "list_all2 R xs ys \<Longrightarrow> y \<in> set ys \<Longrightarrow> \<exists>x \<in> set xs. R x y"
  by (induction rule: list_all2_induct) auto




lemma list_all2_set1: "list_all2 R xs ys \<Longrightarrow> x \<in> set xs \<Longrightarrow> \<exists>y \<in> set ys. R x y"
  by (induction rule: list_all2_induct) auto







section \<open>Properties of the reconciler\<close>

subsection \<open>Joins\<close>

lemma relabel_row_id: "relabel_row (\<lambda>c. c) cs r = r |` set cs"
proof
  fix c'
  have "find (\<lambda>c. c = c') cs = (if c' \<in> set cs then Some c' else None)"
    by (induction cs) auto
  then show "relabel_row (\<lambda>c. c) cs r c' = (r |` set cs) c'"
    by (simp add: relabel_row_def restrict_map_def)
qed

lemma pd_merge_left_disjoint:
  assumes "key \<in> set (columns L)" and "key \<in> set (columns R)"
    and "\<forall>c \<in> set (columns L). c \<noteq> key \<longrightarrow> c \<notin> set (columns R)"
  shows "pd_merge_left key L R =
     Inr \<lparr>columns = columns L @ filter (\<lambda>c. c \<noteq> key) (columns R),
          rows = concat (map (\<lambda>l. map (\<lambda>m. (l |` set (columns L)) ++
                                            ((case m of None \<Rightarrow> null_row (filter (\<lambda>c. c \<noteq> key) (columns R))
                                                       | Some r \<Rightarrow> r)
                                               |` set (filter (\<lambda>c. c \<noteq> key) (columns R))))
                                     (join_rows key (rows R) l))
                          (rows L))\<rparr>"
proof -
  have "filter (\<lambda>c. c \<noteq> key \<and> c \<in> set (columns R)) (columns L) = []"
    using assms(3) by (auto simp: filter_empty_conv)
  then show ?thesis using assms(1,2)
    by (simp add: pd_merge_left_def Let_def relabel_row_id)
qed

lemma keep_first_find:
  "find (\<lambda>r. cell r c = k) (keep_first c seen rs)
     = (if k \<in> set seen then None else find (\<lambda>r. cell r c = k) rs)"
proof (induction rs arbitrary: seen)
  case Nil
  then show ?case by simp
next
  case (Cons r rs)
  show ?case by (auto simp: Cons.IH)
qed

lemma keep_first_keys:
  "distinct (map (\<lambda>r. cell r c) (keep_first c seen rs)) \<and>
   set (map (\<lambda>r. cell r c) (keep_first c seen rs)) \<inter> set seen = {}"
proof (induction rs arbitrary: seen)
  case Nil
  then show ?case by simp
next
  case (Cons r rs)
  from Cons.IH [of seen] Cons.IH [of "cell r c # seen"] show ?case by auto
qed

lemma filter_distinct_key:
  assumes "distinct (map key rs)"
  shows "filter (\<lambda>r. key r = k) rs = (case find (\<lambda>r. key r = k) rs of None \<Rightarrow> [] | Some m \<Rightarrow> [m])"
  using assms
proof (induction rs)
  case Nil
  then show ?case by simp
next
  case (Cons r rs)
  then have IH: "filter (\<lambda>r. key r = k) rs
      = (case find (\<lambda>r. key r = k) rs of None \<Rightarrow> [] | Some m \<Rightarrow> [m])" by simp
  show ?case
  proof (cases "key r = k")
    case True
    with Cons.prems have "k \<notin> key ` set rs" by simp
    then have "\<forall>r' \<in> set rs. key r' \<noteq> k" by blast
    then have "filter (\<lambda>r. key r = k) rs = []" by (simp add: filter_empty_conv)
    with True show ?thesis by simp
  next
    case False
    with IH show ?thesis by simp
  qed
qed

lemma join_rows_distinct:
  assumes "distinct (map (\<lambda>r. cell r key) rs)"
  shows "join_rows key rs l = [find (\<lambda>r. cell r key = cell l key) rs]"
  using filter_distinct_key [OF assms, of "cell l key"]
  by (simp add: join_rows_def split: option.splits)

subsection \<open>The catalog stage of the reconciler (lines 88 to 90)\<close>

lemma relabel_id_tmdbId:
  "relabel [(''id'', ''tmdbId'')] c = (if c = ''id'' then ''tmdbId'' else c)"
  by (simp add: relabel_def)

lemma find_map: "find P (map f xs) = map_option f (find (\<lambda>x. P (f x)) xs)"
  by (induction xs) simp_all

lemma find_filter: "find P (filter Q xs) = find (\<lambda>x. Q x \<and> P x) xs"
  by (induction xs) simp_all

lemma relabel_row_cell:
  assumes "c \<in> set cs" and "\<And>c2. c2 \<in> set cs \<Longrightarrow> nm c2 = nm c \<Longrightarrow> c2 = c"
  shows "relabel_row nm cs r (nm c) = r c"
proof -
  have "find (\<lambda>c2. nm c2 = nm c) cs = Some c"
    using assms
  proof (induction cs)
    case Nil
    then show ?case by simp
  next
    case (Cons a cs)
    show ?case
    proof (cases "nm a = nm c")
      case True
      with Cons.prems(2) [of a] have "a = c" by simp
      with True show ?thesis by simp
    next
      case False
      with Cons.prems have "c \<in> set cs" by auto
      with Cons.IH Cons.prems(2) False show ?thesis by simp
    qed
  qed
  then show ?thesis by (simp add: relabel_row_def)
qed

lemma reserved_not_column:
  assumes "set (columns M) \<inter> set reserved_labels = {}"
  shows "''movieId'' \<notin> set (columns M)" "''imdbId'' \<notin> set (columns M)"
    "''tmdbId'' \<notin> set (columns M)" "''tconst'' \<notin> set (columns M)"
    "''averageRating'' \<notin> set (columns M)" "''numVotes'' \<notin> set (columns M)"
    "''imdb_averageRating'' \<notin> set (columns M)" "''imdb_numVotes'' \<notin> set (columns M)"
  using assms by (auto simp: reserved_labels_def)

lemma renamed_columns_mem:
  assumes "''tmdbId'' \<notin> set (columns M)"
  shows "c \<in> relabel [(''id'', ''tmdbId'')] ` set (columns M)
           \<longleftrightarrow> (c = ''tmdbId'' \<and> ''id'' \<in> set (columns M)) \<or> (c \<noteq> ''id'' \<and> c \<in> set (columns M))"
proof
  assume "c \<in> relabel [(''id'', ''tmdbId'')] ` set (columns M)"
  then obtain c0 where c0: "c0 \<in> set (columns M)" and c: "c = relabel [(''id'', ''tmdbId'')] c0"
    by auto
  show "(c = ''tmdbId'' \<and> ''id'' \<in> set (columns M)) \<or> (c \<noteq> ''id'' \<and> c \<in> set (columns M))"
  proof (cases "c0 = ''id''")
    case True
    with c0 c show ?thesis by (simp add: relabel_id_tmdbId)
  next
    case False
    with c0 c show ?thesis by (simp add: relabel_id_tmdbId)
  qed
next
  assume "(c = ''tmdbId'' \<and> ''id'' \<in> set (columns M)) \<or> (c \<noteq> ''id'' \<and> c \<in> set (columns M))"
  then show "c \<in> relabel [(''id'', ''tmdbId'')] ` set (columns M)"
  proof
    assume a: "c = ''tmdbId'' \<and> ''id'' \<in> set (columns M)"
    then have "relabel [(''id'', ''tmdbId'')] ''id'' \<in> relabel [(''id'', ''tmdbId'')] ` set (columns M)"
      by blast
    with a show ?thesis by (simp add: relabel_id_tmdbId)
  next
    assume a: "c \<noteq> ''id'' \<and> c \<in> set (columns M)"
    then have "relabel [(''id'', ''tmdbId'')] c \<in> relabel [(''id'', ''tmdbId'')] ` set (columns M)"
      by blast
    with a show ?thesis by (simp add: relabel_id_tmdbId)
  qed
qed

lemma renamed_cell_key:
  assumes "''id'' \<in> set (columns M)" and "''tmdbId'' \<notin> set (columns M)"
  shows "relabel_row (relabel [(''id'', ''tmdbId'')]) (columns M) m ''tmdbId'' = m ''id''"
proof -
  have "relabel_row (relabel [(''id'', ''tmdbId'')]) (columns M) m (relabel [(''id'', ''tmdbId'')] ''id'')
          = m ''id''"
    by (rule relabel_row_cell [OF assms(1)]) (use assms(2) in \<open>auto simp: relabel_id_tmdbId split: if_splits\<close>)
  then show ?thesis by (simp add: relabel_id_tmdbId)
qed

lemma renamed_cell_other:
  assumes "c \<in> set (columns M)" and "c \<noteq> ''id''" and "''tmdbId'' \<notin> set (columns M)"
  shows "relabel_row (relabel [(''id'', ''tmdbId'')]) (columns M) m c = m c"
proof -
  have "relabel_row (relabel [(''id'', ''tmdbId'')]) (columns M) m (relabel [(''id'', ''tmdbId'')] c)
          = m c"
    by (rule relabel_row_cell [OF assms(1)]) (use assms in \<open>auto simp: relabel_id_tmdbId split: if_splits\<close>)
  with assms(2) show ?thesis by (simp add: relabel_id_tmdbId)
qed

text \<open>
  Lines 88 to 90 in closed form: one row for each link row, made of the link row and of
  the cells of the first catalog row with its id, or of missing values.
\<close>

lemma catalog_stage:
  fixes L M :: frame
  defines "ren \<equiv> relabel_row (relabel [(''id'', ''tmdbId'')]) (columns M)"
    and "rc \<equiv> filter (\<lambda>c. c \<noteq> ''tmdbId'') (map (relabel [(''id'', ''tmdbId'')]) (columns M))"
  assumes L: "columns L = [''movieId'', ''imdbId'', ''tmdbId'']"
    and idM: "''id'' \<in> set (columns M)"
    and disj: "set (columns M) \<inter> set reserved_labels = {}"
  shows "and_then (dropna ''tmdbId'' (rename_columns [(''id'', ''tmdbId'')] M)) (\<lambda>meta.
         and_then (drop_duplicates ''tmdbId'' meta) (\<lambda>meta.
         and_then (pd_merge_left ''tmdbId'' L meta) K))
     = K \<lparr>columns = [''movieId'', ''imdbId'', ''tmdbId''] @ rc,
           rows = map (\<lambda>l. (l |` {''movieId'', ''imdbId'', ''tmdbId''}) ++
                            ((case catalog_match M (cell l ''tmdbId'') of
                                None \<Rightarrow> null_row rc | Some m \<Rightarrow> ren m) |` set rc))
                      (rows L)\<rparr>"
proof -
  note res = reserved_not_column [OF disj]
  define rs where "rs = filter (\<lambda>r. cell r ''tmdbId'' \<noteq> Null) (map ren (rows M))"
  define R where "R = \<lparr>columns = map (relabel [(''id'', ''tmdbId'')]) (columns M),
                        rows = keep_first ''tmdbId'' [] rs\<rparr>"
  have key: "''tmdbId'' \<in> set (map (relabel [(''id'', ''tmdbId'')]) (columns M))"
    using idM res(3) by (simp add: renamed_columns_mem)
  have prep: "and_then (dropna ''tmdbId'' (rename_columns [(''id'', ''tmdbId'')] M)) (\<lambda>meta.
         and_then (drop_duplicates ''tmdbId'' meta) (\<lambda>meta.
         and_then (pd_merge_left ''tmdbId'' L meta) K))
       = and_then (pd_merge_left ''tmdbId'' L R) K"
    using key by (simp add: rename_columns_def dropna_def drop_duplicates_def R_def rs_def ren_def)
  have keyL: "''tmdbId'' \<in> set (columns L)" by (simp add: L)
  have keyR: "''tmdbId'' \<in> set (columns R)" using key by (simp add: R_def)
  have no_overlap: "\<forall>c \<in> set (columns L). c \<noteq> ''tmdbId'' \<longrightarrow> c \<notin> set (columns R)"
    using res(1,2,3) by (auto simp: L R_def renamed_columns_mem)
  have cell_key: "cell (ren m) ''tmdbId'' = cell m ''id''" for m
    by (simp add: cell_def ren_def renamed_cell_key [OF idM res(3)])
  have matched: "find (\<lambda>r. cell r ''tmdbId'' = k) (rows R) = map_option ren (catalog_match M k)" for k
    by (simp add: R_def rs_def keep_first_find find_filter find_map cell_key catalog_match_def)
  have dist: "distinct (map (\<lambda>r. cell r ''tmdbId'') (rows R))"
    using keep_first_keys [of "''tmdbId''" "[]" rs] by (simp add: R_def)
  have rcR: "filter (\<lambda>c. c \<noteq> ''tmdbId'') (columns R) = rc" by (simp add: R_def rc_def)
  have joined: "join_rows ''tmdbId'' (rows R) l = [map_option ren (catalog_match M (cell l ''tmdbId''))]" for l
    by (simp add: join_rows_distinct [OF dist] matched)
  have pick: "(case map_option ren mo of None \<Rightarrow> null_row rc | Some r \<Rightarrow> r)
                = (case mo of None \<Rightarrow> null_row rc | Some m \<Rightarrow> ren m)" for mo
    by (cases mo) simp_all
  have LC: "set (columns L) = {''movieId'', ''imdbId'', ''tmdbId''}" by (simp add: L)
  have "pd_merge_left ''tmdbId'' L R =
     Inr \<lparr>columns = columns L @ rc,
           rows = concat (map (\<lambda>l. map (\<lambda>m. (l |` set (columns L)) ++
                                            ((case m of None \<Rightarrow> null_row rc | Some r \<Rightarrow> r) |` set rc))
                                     (join_rows ''tmdbId'' (rows R) l))
                          (rows L))\<rparr>"
    using pd_merge_left_disjoint [OF keyL keyR no_overlap] by (simp only: rcR)
  then have "pd_merge_left ''tmdbId'' L R =
     Inr \<lparr>columns = [''movieId'', ''imdbId'', ''tmdbId''] @ rc,
           rows = map (\<lambda>l. (l |` {''movieId'', ''imdbId'', ''tmdbId''}) ++
                            ((case catalog_match M (cell l ''tmdbId'') of
                                None \<Rightarrow> null_row rc | Some m \<Rightarrow> ren m) |` set rc))
                      (rows L)\<rparr>"
    by (simp only: joined pick LC L list.map concat.simps append_Nil2 append_Nil)
       (simp add: concat_map_singleton)
  with prep show ?thesis by simp
qed

subsection \<open>The rating stage of the reconciler (lines 93 to 95)\<close>

lemma assign_from_strip:
  assumes "src \<in> set (columns f)"
  shows "assign_from c src (str_strip_series lib) f =
     (case str_accessor lib (map (\<lambda>r. cell r src) (rows f)) of
        Some e \<Rightarrow> Inl (raised e)
      | None \<Rightarrow> Inr \<lparr>columns = add_column c (columns f),
                      rows = map (\<lambda>r. r(c \<mapsto> str_strip (cell r src))) (rows f)\<rparr>)"
proof (cases "str_accessor lib (map (\<lambda>r. cell r src) (rows f))")
  case None
  then have "assign_from c src (str_strip_series lib) f
      = Inr (setitem_column c (map str_strip (map (\<lambda>r. cell r src) (rows f))) f)"
    using assms by (simp add: assign_from_def getitem_column_def str_strip_series_def)
  with None show ?thesis by (simp only: setitem_column_map option.case)
next
  case (Some e)
  then show ?thesis
    using assms by (simp add: assign_from_def getitem_column_def str_strip_series_def)
qed

lemma rating_stage:
  fixes merged Q :: frame
  assumes Q: "columns Q = [''tconst'', ''averageRating'', ''numVotes'']"
    and src: "''imdb_id'' \<in> set (columns merged)"
    and fresh: "''tconst'' \<notin> set (columns merged)" "''averageRating'' \<notin> set (columns merged)"
      "''numVotes'' \<notin> set (columns merged)"
  shows "and_then (assign_from ''tconst'' ''imdb_id'' (str_strip_series lib) merged) (\<lambda>merged.
         and_then (assign_from ''tconst'' ''tconst'' (str_strip_series lib) Q) (\<lambda>ratings.
         and_then (pd_merge_left ''tconst'' merged ratings) K))
     = (case str_accessor lib (map (\<lambda>r. cell r ''imdb_id'') (rows merged)) of
          Some e \<Rightarrow> Inl (raised e)
        | None \<Rightarrow>
         (case str_accessor lib (map (\<lambda>q. cell q ''tconst'') (rows Q)) of
            Some e \<Rightarrow> Inl (raised e)
          | None \<Rightarrow>
            K \<lparr>columns = (columns merged @ [''tconst'']) @ [''averageRating'', ''numVotes''],
               rows = concat (map (\<lambda>r. map (\<lambda>q. (r |` set (columns merged @ [''tconst''])) ++
                                            ((case q of None \<Rightarrow> null_row [''averageRating'', ''numVotes'']
                                                       | Some q \<Rightarrow> q)
                                               |` set [''averageRating'', ''numVotes'']))
                                     (join_rows ''tconst''
                                        (map (\<lambda>q. q(''tconst'' \<mapsto> str_strip (cell q ''tconst''))) (rows Q)) r))
                          (map (\<lambda>r. r(''tconst'' \<mapsto> str_strip (cell r ''imdb_id''))) (rows merged)))\<rparr>))"
proof -
  define merged2 where "merged2 = \<lparr>columns = columns merged @ [''tconst''],
      rows = map (\<lambda>r. r(''tconst'' \<mapsto> str_strip (cell r ''imdb_id''))) (rows merged)\<rparr>"
  define ratings where "ratings = \<lparr>columns = [''tconst'', ''averageRating'', ''numVotes''],
      rows = map (\<lambda>q. q(''tconst'' \<mapsto> str_strip (cell q ''tconst''))) (rows Q)\<rparr>"
  have a1: "assign_from ''tconst'' ''imdb_id'' (str_strip_series lib) merged
      = (case str_accessor lib (map (\<lambda>r. cell r ''imdb_id'') (rows merged)) of
           Some e \<Rightarrow> Inl (raised e) | None \<Rightarrow> Inr merged2)"
    using fresh(1) by (simp add: assign_from_strip [OF src] add_column_def merged2_def split: option.splits)
  have "''tconst'' \<in> set (columns Q)" by (simp add: Q)
  from assign_from_strip [OF this, of "''tconst''" lib]
  have a2: "assign_from ''tconst'' ''tconst'' (str_strip_series lib) Q
      = (case str_accessor lib (map (\<lambda>q. cell q ''tconst'') (rows Q)) of
           Some e \<Rightarrow> Inl (raised e) | None \<Rightarrow> Inr ratings)"
    by (simp add: add_column_def ratings_def Q split: option.splits)
  have k1: "''tconst'' \<in> set (columns merged2)" by (simp add: merged2_def)
  have k2: "''tconst'' \<in> set (columns ratings)" by (simp add: ratings_def)
  have no: "\<forall>c \<in> set (columns merged2). c \<noteq> ''tconst'' \<longrightarrow> c \<notin> set (columns ratings)"
    using fresh by (auto simp: merged2_def ratings_def)
  have rc: "filter (\<lambda>c. c \<noteq> ''tconst'') (columns ratings) = [''averageRating'', ''numVotes'']"
    by (simp add: ratings_def)
  have m: "pd_merge_left ''tconst'' merged2 ratings =
     Inr \<lparr>columns = columns merged2 @ [''averageRating'', ''numVotes''],
          rows = concat (map (\<lambda>l. map (\<lambda>m. (l |` set (columns merged2)) ++
                                            ((case m of None \<Rightarrow> null_row [''averageRating'', ''numVotes'']
                                                       | Some r \<Rightarrow> r)
                                               |` set [''averageRating'', ''numVotes'']))
                                     (join_rows ''tconst'' (rows ratings) l))
                          (rows merged2))\<rparr>"
    using pd_merge_left_disjoint [OF k1 k2 no] by (simp only: rc)
  show ?thesis
  proof (cases "str_accessor lib (map (\<lambda>r. cell r ''imdb_id'') (rows merged))")
    case (Some e)
    then show ?thesis by (simp add: a1)
  next
    case n1: None
    show ?thesis
    proof (cases "str_accessor lib (map (\<lambda>q. cell q ''tconst'') (rows Q))")
      case (Some e)
      with n1 show ?thesis by (simp add: a1 a2)
    next
      case n2: None
      have "and_then (assign_from ''tconst'' ''imdb_id'' (str_strip_series lib) merged) (\<lambda>merged.
            and_then (assign_from ''tconst'' ''tconst'' (str_strip_series lib) Q) (\<lambda>ratings.
            and_then (pd_merge_left ''tconst'' merged ratings) K))
          = and_then (pd_merge_left ''tconst'' merged2 ratings) K"
        by (simp add: a1 a2 n1 n2)
      also have "\<dots> = K \<lparr>columns = columns merged2 @ [''averageRating'', ''numVotes''],
          rows = concat (map (\<lambda>l. map (\<lambda>m. (l |` set (columns merged2)) ++
                                            ((case m of None \<Rightarrow> null_row [''averageRating'', ''numVotes'']
                                                       | Some r \<Rightarrow> r)
                                               |` set [''averageRating'', ''numVotes'']))
                                     (join_rows ''tconst'' (rows ratings) l))
                          (rows merged2))\<rparr>"
        by (simp only: m and_then_Inr)
      finally show ?thesis
        by (simp only: n1 n2 option.case merged2_def ratings_def frame.simps)
    qed
  qed
qed

lemma join_rows_stripped:
  assumes "cell r ''tconst'' = t"
  shows "join_rows ''tconst'' (map (\<lambda>q. q(''tconst'' \<mapsto> str_strip (cell q ''tconst''))) (rows Q)) r
           = (case rating_matches Q t of [] \<Rightarrow> [None]
              | qs \<Rightarrow> map (\<lambda>q. Some (q(''tconst'' \<mapsto> str_strip (cell q ''tconst'')))) qs)"
proof -
  have "filter (\<lambda>q'. cell q' ''tconst'' = t) (map (\<lambda>q. q(''tconst'' \<mapsto> str_strip (cell q ''tconst''))) (rows Q))
          = map (\<lambda>q. q(''tconst'' \<mapsto> str_strip (cell q ''tconst''))) (rating_matches Q t)"
    by (simp add: rating_matches_def filter_map comp_def)
  then show ?thesis
    using assms by (simp add: join_rows_def split: list.splits)
qed

subsection \<open>The reconciler in closed form\<close>

lemma cell_null_row [simp]: "cell (null_row cs) c = Null"
  by (simp add: cell_def null_row_def)

lemma cell_join_left: "c \<in> A \<Longrightarrow> c \<notin> B \<Longrightarrow> cell ((a |` A) ++ (b |` B)) c = cell a c"
  by (simp add: cell_def map_add_def)

lemma cell_join_right: "c \<in> B \<Longrightarrow> c \<notin> A \<Longrightarrow> cell ((a |` A) ++ (b |` B)) c = cell b c"
  by (simp add: cell_def map_add_def split: option.splits)

lemma cell_relabel_row:
  assumes "c \<in> set cs" and "\<And>c2. c2 \<in> set cs \<Longrightarrow> nm c2 = nm c \<Longrightarrow> c2 = c"
  shows "cell (relabel_row nm cs r) (nm c) = cell r c"
  using relabel_row_cell [of c cs nm r, OF assms] by (simp add: cell_def)

lemma published_label:
  "relabel [(''imdb_id'', ''imdbId''), (''numVotes'', ''imdb_numVotes''),
            (''averageRating'', ''imdb_averageRating'')] c
     = (if c = ''imdb_id'' then ''imdbId'' else if c = ''numVotes'' then ''imdb_numVotes''
        else if c = ''averageRating'' then ''imdb_averageRating'' else c)"
  by (simp add: relabel_def)

lemma list_all2_map_same:
  "(\<And>x. x \<in> set xs \<Longrightarrow> P (f x) (g x)) \<Longrightarrow> list_all2 P (map f xs) (map g xs)"
  by (induction xs) simp_all

text \<open>
  On inputs of the schema above the reconciler raises what \<^verbatim>\<open>.str\<close> raises on one of
  the two key columns, and returns a table otherwise. The rows of the table come in
  groups, one group for each link row in order: the group of a link row holds one
  reconciled row for each rating row that matches the trimmed cross-reference of the
  link's catalog row, or a single row without rating fields when none matches.
\<close>

lemma merge_datasets_closed_form:
  assumes inp: "reconciler_inputs L M Q"
  shows "\<exists>out rss.
     merge_datasets lib L M Q =
       (case str_accessor lib (cross_references L M) of
          Some e \<Rightarrow> Inl (raised e)
        | None \<Rightarrow>
           (case str_accessor lib (map (\<lambda>q. cell q ''tconst'') (rows Q)) of
              Some e \<Rightarrow> Inl (raised e)
            | None \<Rightarrow> Inr out)) \<and>
     columns out = [''movieId'', ''tmdbId'']
                   @ map (\<lambda>c. if c = ''imdb_id'' then ''imdbId'' else c)
                       (filter (\<lambda>c. c \<noteq> ''id'') (columns M))
                   @ [''imdb_averageRating'', ''imdb_numVotes''] \<and>
     rows out = concat rss \<and>
     list_all2 (\<lambda>l rs. list_all2 (reconciles M l (catalog_match M (cell l ''tmdbId'')))
                  (case rating_matches Q (rating_key (catalog_match M (cell l ''tmdbId''))) of
                     [] \<Rightarrow> [None] | q # qs \<Rightarrow> map Some (q # qs)) rs)
       (rows L) rss"
proof -
  from inp have L: "columns L = [''movieId'', ''imdbId'', ''tmdbId'']"
    and Q: "columns Q = [''tconst'', ''averageRating'', ''numVotes'']"
    and idM: "''id'' \<in> set (columns M)" and imM: "''imdb_id'' \<in> set (columns M)"
    and disj: "set (columns M) \<inter> set reserved_labels = {}"
    by (simp_all add: reconciler_inputs_def)
  note res = reserved_not_column [OF disj]
  define ren where "ren = relabel_row (relabel [(''id'', ''tmdbId'')]) (columns M)"
  define rc where "rc = filter (\<lambda>c. c \<noteq> ''tmdbId'') (map (relabel [(''id'', ''tmdbId'')]) (columns M))"
  define row1 where "row1 = (\<lambda>l. (l |` {''movieId'', ''imdbId'', ''tmdbId''}) ++
                            ((case catalog_match M (cell l ''tmdbId'') of
                                None \<Rightarrow> null_row rc | Some m \<Rightarrow> ren m) |` set rc))"
  define merged1 where "merged1 = \<lparr>columns = [''movieId'', ''imdbId'', ''tmdbId''] @ rc,
                                   rows = map row1 (rows L)\<rparr>"
  have rc_eq: "rc = filter (\<lambda>c. c \<noteq> ''id'') (columns M)"
  proof -
    have "filter (\<lambda>c. c \<noteq> ''tmdbId'') (map (relabel [(''id'', ''tmdbId'')]) cs) = filter (\<lambda>c. c \<noteq> ''id'') cs"
      if "''tmdbId'' \<notin> set cs" for cs
      using that by (induction cs) (auto simp: relabel_def)
    with res(3) show ?thesis by (simp add: rc_def)
  qed
  have rc_set: "c \<in> set rc \<longleftrightarrow> c \<in> set (columns M) \<and> c \<noteq> ''id''" for c
    by (auto simp: rc_eq)
  have src: "''imdb_id'' \<in> set (columns merged1)" using imM by (simp add: merged1_def rc_set)
  have fresh: "''tconst'' \<notin> set (columns merged1)" "''averageRating'' \<notin> set (columns merged1)"
    "''numVotes'' \<notin> set (columns merged1)"
    using res by (simp_all add: merged1_def rc_set)
  define upd1 where "upd1 = (\<lambda>r::row. r(''tconst'' \<mapsto> str_strip (cell r ''imdb_id'')))"
  define updq where "updq = (\<lambda>q::row. q(''tconst'' \<mapsto> str_strip (cell q ''tconst'')))"
  define cols2 where "cols2 = columns merged1 @ [''tconst'']"
  define J where "J = (\<lambda>(r::row) (q::row option). (r |` set cols2) ++
                        ((case q of None \<Rightarrow> null_row [''averageRating'', ''numVotes''] | Some q \<Rightarrow> q)
                           |` set [''averageRating'', ''numVotes'']))"
  define merged3 where "merged3 = \<lparr>columns = cols2 @ [''averageRating'', ''numVotes''],
      rows = concat (map (\<lambda>r. map (J r) (join_rows ''tconst'' (map updq (rows Q)) r))
                       (map upd1 (rows merged1)))\<rparr>"
  define fin where "fin = relabel [(''imdb_id'', ''imdbId''), (''numVotes'', ''imdb_numVotes''),
                                   (''averageRating'', ''imdb_averageRating'')]"
  define cols3 where "cols3 = filter (\<lambda>c. c \<notin> set [''imdbId'', ''tconst'']) (columns merged3)"
  define G where "G = (\<lambda>l q. relabel_row fin cols3 (J (upd1 (row1 l)) q |` (- set [''imdbId'', ''tconst''])))"
  define out where "out = \<lparr>columns = map fin cols3,
      rows = concat (map (\<lambda>l. map (G l) (join_rows ''tconst'' (map updq (rows Q)) (upd1 (row1 l))))
                       (rows L))\<rparr>"
  define tail where "tail = (\<lambda>merged::frame.
      and_then (drop_columns [''imdbId'', ''tconst''] merged) (\<lambda>merged.
      Inr (rename_columns [(''imdb_id'', ''imdbId''), (''numVotes'', ''imdb_numVotes''),
                           (''averageRating'', ''imdb_averageRating'')] merged)))"
  have stage1: "merge_datasets lib L M Q =
      and_then (assign_from ''tconst'' ''imdb_id'' (str_strip_series lib) merged1) (\<lambda>merged.
      and_then (assign_from ''tconst'' ''tconst'' (str_strip_series lib) Q) (\<lambda>ratings.
      and_then (pd_merge_left ''tconst'' merged ratings) tail))"
    unfolding merge_datasets_def merged1_def row1_def rc_def ren_def tail_def
    by (rule catalog_stage [OF L idM disj])
  have stage2: "merge_datasets lib L M Q =
      (case str_accessor lib (map (\<lambda>r. cell r ''imdb_id'') (rows merged1)) of
         Some e \<Rightarrow> Inl (raised e)
       | None \<Rightarrow>
          (case str_accessor lib (map (\<lambda>q. cell q ''tconst'') (rows Q)) of
             Some e \<Rightarrow> Inl (raised e)
           | None \<Rightarrow> tail merged3))"
    unfolding stage1 merged3_def J_def cols2_def upd1_def updq_def
    by (rule rating_stage [OF Q src fresh])
  have in3: "\<forall>c \<in> set [''imdbId'', ''tconst'']. c \<in> set (columns merged3)"
    by (simp add: merged3_def cols2_def merged1_def)
  have tail3: "tail merged3 = Inr out"
    using in3
    by (simp add: tail_def drop_columns_def rename_columns_def out_def cols3_def fin_def G_def
          merged3_def merged1_def map_concat comp_def)
  have cols3_eq: "cols3 = [''movieId'', ''tmdbId''] @ rc @ [''averageRating'', ''numVotes'']"
  proof -
    have "filter (\<lambda>c. c \<noteq> ''imdbId'' \<and> c \<noteq> ''tconst'') rc = rc"
      using res by (auto simp: filter_id_conv rc_set)
    then show ?thesis by (simp add: cols3_def merged3_def cols2_def merged1_def)
  qed
  have cols3_set: "c \<in> set cols3 \<longleftrightarrow>
      c = ''movieId'' \<or> c = ''tmdbId'' \<or> c \<in> set rc \<or> c = ''averageRating'' \<or> c = ''numVotes''" for c
    by (auto simp: cols3_eq)
  have fin_eq: "fin c = (if c = ''imdb_id'' then ''imdbId'' else if c = ''numVotes'' then ''imdb_numVotes''
        else if c = ''averageRating'' then ''imdb_averageRating'' else c)" for c
    by (simp add: fin_def published_label)
  have fin_rc: "map fin rc = map (\<lambda>c. if c = ''imdb_id'' then ''imdbId'' else c) rc"
  proof (rule map_cong [OF refl])
    fix c assume "c \<in> set rc"
    with res have "c \<noteq> ''numVotes''" "c \<noteq> ''averageRating''" by (auto simp: rc_set)
    then show "fin c = (if c = ''imdb_id'' then ''imdbId'' else c)" by (simp add: fin_eq)
  qed
  have cols_out: "columns out = [''movieId'', ''tmdbId'']
                   @ map (\<lambda>c. if c = ''imdb_id'' then ''imdbId'' else c)
                       (filter (\<lambda>c. c \<noteq> ''id'') (columns M))
                   @ [''imdb_averageRating'', ''imdb_numVotes'']"
    using fin_rc by (simp add: out_def cols3_eq fin_eq rc_eq)
  have fin_inj: "c2 = c" if "c \<in> set cols3" "c2 \<in> set cols3" "fin c2 = fin c" for c c2
    using that res by (auto simp: cols3_set rc_set fin_eq split: if_splits)
  have Gcell: "cell (G l q) (fin c) = cell (J (upd1 (row1 l)) q) c" if c: "c \<in> set cols3" for l q c
  proof -
    have "cell (G l q) (fin c) = cell (J (upd1 (row1 l)) q |` (- set [''imdbId'', ''tconst''])) c"
      unfolding G_def by (rule cell_relabel_row [OF c]) (use c fin_inj in blast)
    moreover have "c \<in> - set [''imdbId'', ''tconst'']"
      using c res by (auto simp: cols3_set rc_set)
    ultimately show ?thesis by simp
  qed
  have in_cols2: "c \<in> set cols2 \<longleftrightarrow>
      c = ''movieId'' \<or> c = ''imdbId'' \<or> c = ''tmdbId'' \<or> c \<in> set rc \<or> c = ''tconst''" for c
    by (auto simp: cols2_def merged1_def)
  have Jleft: "cell (J r q) c = cell r c"
    if "c = ''movieId'' \<or> c = ''tmdbId'' \<or> c \<in> set rc" for r q c
    unfolding J_def
    by (rule cell_join_left) (use that res in \<open>auto simp: in_cols2 rc_set\<close>)
  have Jright: "cell (J r q) c = (case q of None \<Rightarrow> Null | Some q \<Rightarrow> cell q c)"
    if "c = ''averageRating'' \<or> c = ''numVotes''" for r q c
  proof -
    have "cell (J r q) c = cell (case q of None \<Rightarrow> null_row [''averageRating'', ''numVotes''] | Some q \<Rightarrow> q) c"
      unfolding J_def
      by (rule cell_join_right) (use that res in \<open>auto simp: in_cols2 rc_set\<close>)
    then show ?thesis by (cases q) simp_all
  qed
  have upd1_cell: "cell (upd1 r) c = cell r c" if "c \<noteq> ''tconst''" for r c
    using that by (simp add: upd1_def)
  have row1_link: "cell (row1 l) c = cell l c" if "c = ''movieId'' \<or> c = ''tmdbId''" for l c
    unfolding row1_def
    by (rule cell_join_left) (use that res in \<open>auto simp: rc_set\<close>)
  have ren_cell: "cell (ren m) c = cell m c" if "c \<in> set rc" for m c
    using that res(3) by (simp add: cell_def ren_def renamed_cell_other rc_set)
  have row1_cat: "cell (row1 l) c = (case catalog_match M (cell l ''tmdbId'') of
                                       None \<Rightarrow> Null | Some m \<Rightarrow> cell m c)"
    if c: "c \<in> set rc" for l c
  proof -
    have "cell (row1 l) c = cell (case catalog_match M (cell l ''tmdbId'') of
                                    None \<Rightarrow> null_row rc | Some m \<Rightarrow> ren m) c"
      unfolding row1_def
      by (rule cell_join_right) (use c res in \<open>auto simp: rc_set\<close>)
    then show ?thesis using ren_cell [OF c] by (simp split: option.splits)
  qed
  have im_rc: "''imdb_id'' \<in> set rc" using imM by (simp add: rc_set)
  have col1: "map (\<lambda>r. cell r ''imdb_id'') (rows merged1) = cross_references L M"
    by (simp add: merged1_def cross_references_def row1_cat [OF im_rc] comp_def)
  have key: "cell (upd1 (row1 l)) ''tconst'' = rating_key (catalog_match M (cell l ''tmdbId''))" for l
    using row1_cat [OF im_rc, of l]
    by (simp add: upd1_def rating_key_def split: option.splits)
  have rec: "reconciles M l (catalog_match M (cell l ''tmdbId'')) q (G l (map_option updq q))" for l q
  proof -
    let ?r = "G l (map_option updq q)"
    have mv: "cell ?r ''movieId'' = cell l ''movieId''"
      using Gcell [of "''movieId''" l "map_option updq q"]
      by (simp add: cols3_set fin_eq Jleft upd1_cell row1_link)
    have tm: "cell ?r ''tmdbId'' = cell l ''tmdbId''"
      using Gcell [of "''tmdbId''" l "map_option updq q"]
      by (simp add: cols3_set fin_eq Jleft upd1_cell row1_link)
    have cat: "cell ?r (if c = ''imdb_id'' then ''imdbId'' else c)
                 = (case catalog_match M (cell l ''tmdbId'') of None \<Rightarrow> Null | Some m \<Rightarrow> cell m c)"
      if "c \<in> set (columns M)" "c \<noteq> ''id''" for c
    proof -
      from that have c: "c \<in> set rc" by (simp add: rc_set)
      with res have ne: "c \<noteq> ''numVotes''" "c \<noteq> ''averageRating''" "c \<noteq> ''tconst''"
        by (auto simp: rc_set)
      from c have "c \<in> set cols3" by (simp add: cols3_set)
      from Gcell [OF this, of l "map_option updq q"]
      have "cell ?r (fin c) = cell (row1 l) c" using c ne by (simp add: Jleft upd1_cell)
      moreover have "fin c = (if c = ''imdb_id'' then ''imdbId'' else c)"
        using ne by (simp add: fin_eq)
      ultimately show ?thesis by (simp only: row1_cat [OF c])
    qed
    have ar: "cell ?r ''imdb_averageRating'' = (case q of None \<Rightarrow> Null | Some q \<Rightarrow> cell q ''averageRating'')"
      using Gcell [of "''averageRating''" l "map_option updq q"]
      by (cases q) (simp_all add: cols3_set fin_eq Jright updq_def)
    have nv: "cell ?r ''imdb_numVotes'' = (case q of None \<Rightarrow> Null | Some q \<Rightarrow> cell q ''numVotes'')"
      using Gcell [of "''numVotes''" l "map_option updq q"]
      by (cases q) (simp_all add: cols3_set fin_eq Jright updq_def)
    from mv tm cat ar nv show ?thesis unfolding reconciles_def by blast
  qed
  define rss where "rss = map (\<lambda>l. map (G l) (join_rows ''tconst'' (map updq (rows Q)) (upd1 (row1 l))))
                            (rows L)"
  have rows: "rows out = concat rss" by (simp add: out_def rss_def)
  have group: "list_all2 (reconciles M l (catalog_match M (cell l ''tmdbId'')))
                 (case rating_matches Q (rating_key (catalog_match M (cell l ''tmdbId''))) of
                    [] \<Rightarrow> [None] | q # qs \<Rightarrow> map Some (q # qs))
                 (map (G l) (join_rows ''tconst'' (map updq (rows Q)) (upd1 (row1 l))))" for l
  proof -
    have j: "join_rows ''tconst'' (map updq (rows Q)) (upd1 (row1 l))
        = (case rating_matches Q (rating_key (catalog_match M (cell l ''tmdbId''))) of
             [] \<Rightarrow> [None] | qs \<Rightarrow> map (\<lambda>q. Some (updq q)) qs)"
      unfolding updq_def by (rule join_rows_stripped [OF key])
    show ?thesis
    proof (cases "rating_matches Q (rating_key (catalog_match M (cell l ''tmdbId'')))")
      case Nil
      with rec [of l None] show ?thesis by (simp add: j)
    next
      case (Cons q qs)
      have "list_all2 (reconciles M l (catalog_match M (cell l ''tmdbId'')))
              (map Some (q # qs)) (map (\<lambda>q. G l (Some (updq q))) (q # qs))"
        by (rule list_all2_map_same) (use rec [of l "Some _"] in simp)
      with Cons show ?thesis by (simp add: j comp_def)
    qed
  qed
  have groups: "list_all2 (\<lambda>l rs. list_all2 (reconciles M l (catalog_match M (cell l ''tmdbId'')))
                        (case rating_matches Q (rating_key (catalog_match M (cell l ''tmdbId''))) of
                           [] \<Rightarrow> [None] | q # qs \<Rightarrow> map Some (q # qs)) rs)
             (rows L) rss"
    unfolding rss_def using group by (simp add: list_all2_map2 list_all2_same)
  have run: "merge_datasets lib L M Q =
       (case str_accessor lib (cross_references L M) of
          Some e \<Rightarrow> Inl (raised e)
        | None \<Rightarrow>
           (case str_accessor lib (map (\<lambda>q. cell q ''tconst'') (rows Q)) of
              Some e \<Rightarrow> Inl (raised e)
            | None \<Rightarrow> Inr out))"
    unfolding stage2 col1 tail3 ..
  from run cols_out rows groups show ?thesis by blast
qed

text \<open>The table the reconciler returns, group by group.\<close>

lemma merge_datasets_groups:
  assumes inp: "reconciler_inputs L M Q" and run: "merge_datasets lib L M Q = Inr out"
  shows "columns out = [''movieId'', ''tmdbId'']
                   @ map (\<lambda>c. if c = ''imdb_id'' then ''imdbId'' else c)
                       (filter (\<lambda>c. c \<noteq> ''id'') (columns M))
                   @ [''imdb_averageRating'', ''imdb_numVotes'']"
    and "\<exists>rss. rows out = concat rss \<and> length rss = length (rows L) \<and>
           (\<forall>i < length (rows L).
              list_all2 (reconciles M (rows L ! i) (catalog_match M (cell (rows L ! i) ''tmdbId'')))
                (case rating_matches Q (rating_key (catalog_match M (cell (rows L ! i) ''tmdbId''))) of
                   [] \<Rightarrow> [None] | q # qs \<Rightarrow> map Some (q # qs))
                (rss ! i))"
proof -
  from merge_datasets_closed_form [OF inp, of lib] obtain out' rss where
    eq: "merge_datasets lib L M Q =
       (case str_accessor lib (cross_references L M) of
          Some e \<Rightarrow> Inl (raised e)
        | None \<Rightarrow>
           (case str_accessor lib (map (\<lambda>q. cell q ''tconst'') (rows Q)) of
              Some e \<Rightarrow> Inl (raised e)
            | None \<Rightarrow> Inr out'))"
    and cols: "columns out' = [''movieId'', ''tmdbId'']
                   @ map (\<lambda>c. if c = ''imdb_id'' then ''imdbId'' else c)
                       (filter (\<lambda>c. c \<noteq> ''id'') (columns M))
                   @ [''imdb_averageRating'', ''imdb_numVotes'']"
    and rows: "rows out' = concat rss"
    and groups: "list_all2 (\<lambda>l rs. list_all2 (reconciles M l (catalog_match M (cell l ''tmdbId'')))
                  (case rating_matches Q (rating_key (catalog_match M (cell l ''tmdbId''))) of
                     [] \<Rightarrow> [None] | q # qs \<Rightarrow> map Some (q # qs)) rs)
       (rows L) rss"
    by blast
  from run eq have out: "out' = out" by (simp split: option.splits)
  from cols out show "columns out = [''movieId'', ''tmdbId'']
                   @ map (\<lambda>c. if c = ''imdb_id'' then ''imdbId'' else c)
                       (filter (\<lambda>c. c \<noteq> ''id'') (columns M))
                   @ [''imdb_averageRating'', ''imdb_numVotes'']" by simp
  from groups have len: "length rss = length (rows L)" by (simp add: list_all2_lengthD)
  from groups have "\<forall>i < length (rows L).
              list_all2 (reconciles M (rows L ! i) (catalog_match M (cell (rows L ! i) ''tmdbId'')))
                (case rating_matches Q (rating_key (catalog_match M (cell (rows L ! i) ''tmdbId''))) of
                   [] \<Rightarrow> [None] | q # qs \<Rightarrow> map Some (q # qs))
                (rss ! i)"
    by (simp add: list_all2_conv_all_nth)
  with rows out len
  show "\<exists>rss. rows out = concat rss \<and> length rss = length (rows L) \<and>
           (\<forall>i < length (rows L).
              list_all2 (reconciles M (rows L ! i) (catalog_match M (cell (rows L ! i) ''tmdbId'')))
                (case rating_matches Q (rating_key (catalog_match M (cell (rows L ! i) ''tmdbId''))) of
                   [] \<Rightarrow> [None] | q # qs \<Rightarrow> map Some (q # qs))
                (rss ! i))"
    by blast
qed

text \<open>The reconciler returns a table when \<^verbatim>\<open>.str\<close> accepts the two key columns.\<close>

lemma merge_datasets_returns:
  assumes "reconciler_inputs L M Q"
    and "str_accessor lib (cross_references L M) = None"
    and "str_accessor lib (map (\<lambda>q. cell q ''tconst'') (rows Q)) = None"
  shows "\<exists>out. merge_datasets lib L M Q = Inr out"
  using merge_datasets_closed_form [OF assms(1), of lib] assms(2,3) by auto

text \<open>A group of reconciled rows is never empty, and each of its rows is reconciled.\<close>

lemma group_rows:
  assumes "list_all2 (reconciles M l m) (case qs of [] \<Rightarrow> [None] | q # qs' \<Rightarrow> map Some (q # qs')) rs"
  shows "rs \<noteq> []" and "\<And>r. r \<in> set rs \<Longrightarrow> \<exists>q. reconciles M l m q r"
    and "\<And>q. q \<in> set qs \<Longrightarrow> \<exists>r \<in> set rs. reconciles M l m (Some q) r"
    and "\<And>r. r \<in> set rs \<Longrightarrow> (qs = [] \<and> reconciles M l m None r) \<or> (\<exists>q \<in> set qs. reconciles M l m (Some q) r)"
proof -
  let ?xs = "case qs of [] \<Rightarrow> [None] | q # qs' \<Rightarrow> map Some (q # qs')"
  have ne: "?xs \<noteq> []" by (cases qs) simp_all
  with assms show "rs \<noteq> []" by (auto simp: list_all2_Nil2)
  show "\<exists>q. reconciles M l m q r" if "r \<in> set rs" for r
    using list_all2_set2 [OF assms that] by blast
  show "\<exists>r \<in> set rs. reconciles M l m (Some q) r" if "q \<in> set qs" for q
  proof -
    from that have "Some q \<in> set ?xs" by (cases qs) auto
    from list_all2_set1 [OF assms this] show ?thesis .
  qed
  show "(qs = [] \<and> reconciles M l m None r) \<or> (\<exists>q \<in> set qs. reconciles M l m (Some q) r)"
    if "r \<in> set rs" for r
  proof -
    from list_all2_set2 [OF assms that] obtain x where x: "x \<in> set ?xs" and r: "reconciles M l m x r"
      by blast
    show ?thesis
    proof (cases qs)
      case Nil
      with x r show ?thesis by simp
    next
      case (Cons q qs')
      with x obtain q' where "x = Some q'" "q' \<in> set qs" by auto
      with r show ?thesis by blast
    qed
  qed
qed

lemma nth_mem_concat: "i < length rss \<Longrightarrow> r \<in> set (rss ! i) \<Longrightarrow> r \<in> set (concat rss)"
  by (auto intro: nth_mem)

lemma published_column:
  assumes "columns out = [''movieId'', ''tmdbId'']
                   @ map (\<lambda>c. if c = ''imdb_id'' then ''imdbId'' else c)
                       (filter (\<lambda>c. c \<noteq> ''id'') (columns M))
                   @ [''imdb_averageRating'', ''imdb_numVotes'']"
    and "c \<in> set (columns M)" and "c \<noteq> ''id''"
  shows "(if c = ''imdb_id'' then ''imdbId'' else c) \<in> set (columns out)"
proof -
  from assms(2,3) have "c \<in> set (filter (\<lambda>c. c \<noteq> ''id'') (columns M))" by simp
  then have "(if c = ''imdb_id'' then ''imdbId'' else c)
      \<in> (\<lambda>c. if c = ''imdb_id'' then ''imdbId'' else c) ` set (filter (\<lambda>c. c \<noteq> ''id'') (columns M))"
    by (intro image_eqI [where x = c]) simp_all
  then show ?thesis unfolding assms(1) by simp
qed

subsection \<open>The sample tables are inputs of the schema, and the reconciler returns on them\<close>

lemma samples_inputs: "reconciler_inputs links_sample meta_sample ratings_sample"
  by (simp add: reconciler_inputs_def links_sample_def meta_sample_def ratings_sample_def
        reserved_labels_def cell_def)

lemma samples_match:
  "catalog_match meta_sample (cell (rows links_sample ! 0) ''tmdbId'') = Some (rows meta_sample ! 0)"
  "catalog_match meta_sample (cell (rows links_sample ! 1) ''tmdbId'') = None"
  "catalog_match meta_sample (cell (rows links_sample ! 2) ''tmdbId'') = None"
  by (simp_all add: catalog_match_def links_sample_def meta_sample_def cell_def)

lemma samples_cross_references:
  "cross_references links_sample meta_sample = [PStr ''tt001 '', Null, Null]"
  by (simp add: cross_references_def catalog_match_def links_sample_def meta_sample_def cell_def)

lemma samples_return: "\<exists>out. merge_datasets library_sample links_sample meta_sample ratings_sample = Inr out"
proof (rule merge_datasets_returns [OF samples_inputs])
  show "str_accessor library_sample (cross_references links_sample meta_sample) = None"
    by (simp add: samples_cross_references library_sample_def)
  show "str_accessor library_sample (map (\<lambda>q. cell q ''tconst'') (rows ratings_sample)) = None"
    by (simp add: library_sample_def ratings_sample_def cell_def)
qed

text \<open>
  Claim C5. Whenever the reconciler returns a table on inputs of the schema, the rows of
  the table are the groups of the link rows, in order, and the group of a link row whose
  external catalog id equals the id of no catalog row is not empty: each of its rows
  carries the two published ids of the link row, and a missing value in every column that
  comes from the catalog (its genre indicator columns among them). Each such column is
  a column of the table.
\<close>

theorem merge_datasets_unmatched_link:
  assumes "reconciler_inputs L M Q" and "merge_datasets lib L M Q = Inr out"
  shows "\<exists>rss. rows out = concat rss \<and> length rss = length (rows L) \<and>
           (\<forall>i < length (rows L). catalog_match M (cell (rows L ! i) ''tmdbId'') = None \<longrightarrow>
              rss ! i \<noteq> [] \<and>
              (\<forall>r \<in> set (rss ! i).
                 cell r ''movieId'' = cell (rows L ! i) ''movieId'' \<and>
                 cell r ''tmdbId'' = cell (rows L ! i) ''tmdbId'' \<and>
                 (\<forall>c \<in> set (columns M). c \<noteq> ''id'' \<longrightarrow>
                    (if c = ''imdb_id'' then ''imdbId'' else c) \<in> set (columns out) \<and>
                    cell r (if c = ''imdb_id'' then ''imdbId'' else c) = Null)))"
proof -
  note cols = merge_datasets_groups(1) [OF assms]
  from merge_datasets_groups(2) [OF assms] obtain rss where
    rows: "rows out = concat rss" and len: "length rss = length (rows L)"
    and groups: "\<And>i. i < length (rows L) \<Longrightarrow>
              list_all2 (reconciles M (rows L ! i) (catalog_match M (cell (rows L ! i) ''tmdbId'')))
                (case rating_matches Q (rating_key (catalog_match M (cell (rows L ! i) ''tmdbId''))) of
                   [] \<Rightarrow> [None] | q # qs \<Rightarrow> map Some (q # qs))
                (rss ! i)"
    by blast
  have "rss ! i \<noteq> [] \<and>
        (\<forall>r \<in> set (rss ! i).
           cell r ''movieId'' = cell (rows L ! i) ''movieId'' \<and>
           cell r ''tmdbId'' = cell (rows L ! i) ''tmdbId'' \<and>
           (\<forall>c \<in> set (columns M). c \<noteq> ''id'' \<longrightarrow>
              (if c = ''imdb_id'' then ''imdbId'' else c) \<in> set (columns out) \<and>
              cell r (if c = ''imdb_id'' then ''imdbId'' else c) = Null))"
    if i: "i < length (rows L)" and none: "catalog_match M (cell (rows L ! i) ''tmdbId'') = None" for i
  proof (intro conjI ballI impI)
    note g = group_rows [OF groups [OF i]]
    show "rss ! i \<noteq> []" by (rule g(1))
    fix r assume "r \<in> set (rss ! i)"
    from g(2) [OF this] obtain q where
      rec: "reconciles M (rows L ! i) None q r" unfolding none by blast
    from rec show "cell r ''movieId'' = cell (rows L ! i) ''movieId''"
      and "cell r ''tmdbId'' = cell (rows L ! i) ''tmdbId''"
      by (simp_all add: reconciles_def)
    fix c assume c: "c \<in> set (columns M)" "c \<noteq> ''id''"
    from published_column [OF cols c]
    show "(if c = ''imdb_id'' then ''imdbId'' else c) \<in> set (columns out)" .
    from rec c show "cell r (if c = ''imdb_id'' then ''imdbId'' else c) = Null"
      unfolding reconciles_def by simp
  qed
  with rows len show ?thesis by blast
qed

theorem merge_datasets_unmatched_link_witness:
  "reconciler_inputs links_sample meta_sample ratings_sample \<and>
   catalog_match meta_sample (cell (rows links_sample ! 1) ''tmdbId'') = None \<and>
   (\<exists>out. merge_datasets library_sample links_sample meta_sample ratings_sample = Inr out \<and>
      ''title'' \<in> set (columns out) \<and> ''Drama'' \<in> set (columns out) \<and>
      (\<exists>r \<in> set (rows out). cell r ''movieId'' = PInt 11 \<and> cell r ''tmdbId'' = PInt 99 \<and>
         cell r ''title'' = Null \<and> cell r ''Drama'' = Null \<and> cell r ''imdbId'' = Null))"
proof -
  from samples_return obtain out
    where run: "merge_datasets library_sample links_sample meta_sample ratings_sample = Inr out" by blast
  from merge_datasets_unmatched_link [OF samples_inputs run] obtain rss where
    rows: "rows out = concat rss" and len: "length rss = length (rows links_sample)"
    and un: "\<forall>i < length (rows links_sample).
           catalog_match meta_sample (cell (rows links_sample ! i) ''tmdbId'') = None \<longrightarrow>
              rss ! i \<noteq> [] \<and>
              (\<forall>r \<in> set (rss ! i).
                 cell r ''movieId'' = cell (rows links_sample ! i) ''movieId'' \<and>
                 cell r ''tmdbId'' = cell (rows links_sample ! i) ''tmdbId'' \<and>
                 (\<forall>c \<in> set (columns meta_sample). c \<noteq> ''id'' \<longrightarrow>
                    (if c = ''imdb_id'' then ''imdbId'' else c) \<in> set (columns out) \<and>
                    cell r (if c = ''imdb_id'' then ''imdbId'' else c) = Null))"
    by blast
  have i: "1 < length (rows links_sample)" by (simp add: links_sample_def)
  from un [rule_format, OF i samples_match(2)]
  have ne: "rss ! 1 \<noteq> []"
    and all: "\<And>r. r \<in> set (rss ! 1) \<Longrightarrow>
                 cell r ''movieId'' = cell (rows links_sample ! 1) ''movieId'' \<and>
                 cell r ''tmdbId'' = cell (rows links_sample ! 1) ''tmdbId'' \<and>
                 (\<forall>c \<in> set (columns meta_sample). c \<noteq> ''id'' \<longrightarrow>
                    (if c = ''imdb_id'' then ''imdbId'' else c) \<in> set (columns out) \<and>
                    cell r (if c = ''imdb_id'' then ''imdbId'' else c) = Null)"
    by blast+
  from ne obtain r where r: "r \<in> set (rss ! 1)" by (cases "rss ! 1") auto
  from i len have "r \<in> set (rows out)" unfolding rows by (intro nth_mem_concat [OF _ r]) simp
  moreover from all [OF r] have "cell r ''movieId'' = PInt 11" "cell r ''tmdbId'' = PInt 99"
    by (simp_all add: links_sample_def cell_def)
  moreover have cs: "''title'' \<in> set (columns meta_sample)" "''Drama'' \<in> set (columns meta_sample)"
    "''imdb_id'' \<in> set (columns meta_sample)" by (simp_all add: meta_sample_def)
  from all [OF r, THEN conjunct2, THEN conjunct2, rule_format, OF cs(1)]
  have t: "''title'' \<in> set (columns out)" "cell r ''title'' = Null" by simp_all
  from all [OF r, THEN conjunct2, THEN conjunct2, rule_format, OF cs(2)]
  have d: "''Drama'' \<in> set (columns out)" "cell r ''Drama'' = Null" by simp_all
  from all [OF r, THEN conjunct2, THEN conjunct2, rule_format, OF cs(3)]
  have m: "cell r ''imdbId'' = Null" by simp
  ultimately have "\<exists>r \<in> set (rows out). cell r ''movieId'' = PInt 11 \<and> cell r ''tmdbId'' = PInt 99 \<and>
         cell r ''title'' = Null \<and> cell r ''Drama'' = Null \<and> cell r ''imdbId'' = Null"
    using t d by blast
  with run t(1) d(1) samples_inputs samples_match(2) show ?thesis by blast
qed

text \<open>
  Claim C10. Whenever the reconciler returns a table on inputs of the schema, the table has
  a column \<^verbatim>\<open>imdbId\<close>, and in every row of the group of a link row its cell is the
  \<^verbatim>\<open>imdb_id\<close> of the catalog row that the link row matches, and missing when it matches
  none. The \<^verbatim>\<open>imdbId\<close> of the link row itself does not occur in this: whatever the link row
  carries there, an unmatched link row is published with a missing \<^verbatim>\<open>imdbId\<close>.
\<close>

theorem merge_datasets_imdbId_from_catalog:
  assumes "reconciler_inputs L M Q" and "merge_datasets lib L M Q = Inr out"
  shows "''imdbId'' \<in> set (columns out) \<and>
         (\<exists>rss. rows out = concat rss \<and> length rss = length (rows L) \<and>
            (\<forall>i < length (rows L).
               rss ! i \<noteq> [] \<and>
               (\<forall>r \<in> set (rss ! i).
                  cell r ''movieId'' = cell (rows L ! i) ''movieId'' \<and>
                  cell r ''imdbId'' = (case catalog_match M (cell (rows L ! i) ''tmdbId'') of
                                         None \<Rightarrow> Null | Some m \<Rightarrow> cell m ''imdb_id''))))"
proof -
  note cols = merge_datasets_groups(1) [OF assms]
  from assms(1) have im: "''imdb_id'' \<in> set (columns M)" by (simp add: reconciler_inputs_def)
  from published_column [OF cols im] have col: "''imdbId'' \<in> set (columns out)" by simp
  from merge_datasets_groups(2) [OF assms] obtain rss where
    rows: "rows out = concat rss" and len: "length rss = length (rows L)"
    and groups: "\<And>i. i < length (rows L) \<Longrightarrow>
              list_all2 (reconciles M (rows L ! i) (catalog_match M (cell (rows L ! i) ''tmdbId'')))
                (case rating_matches Q (rating_key (catalog_match M (cell (rows L ! i) ''tmdbId''))) of
                   [] \<Rightarrow> [None] | q # qs \<Rightarrow> map Some (q # qs))
                (rss ! i)"
    by blast
  have "rss ! i \<noteq> [] \<and>
        (\<forall>r \<in> set (rss ! i).
           cell r ''movieId'' = cell (rows L ! i) ''movieId'' \<and>
           cell r ''imdbId'' = (case catalog_match M (cell (rows L ! i) ''tmdbId'') of
                                  None \<Rightarrow> Null | Some m \<Rightarrow> cell m ''imdb_id''))"
    if i: "i < length (rows L)" for i
  proof (intro conjI ballI)
    note g = group_rows [OF groups [OF i]]
    show "rss ! i \<noteq> []" by (rule g(1))
    fix r assume "r \<in> set (rss ! i)"
    from g(2) [OF this] obtain q where
      rec: "reconciles M (rows L ! i) (catalog_match M (cell (rows L ! i) ''tmdbId'')) q r" by blast
    from rec show "cell r ''movieId'' = cell (rows L ! i) ''movieId''"
      by (simp add: reconciles_def)
    from rec im show "cell r ''imdbId'' = (case catalog_match M (cell (rows L ! i) ''tmdbId'') of
                                  None \<Rightarrow> Null | Some m \<Rightarrow> cell m ''imdb_id'')"
      unfolding reconciles_def by fastforce
  qed
  with col rows len show ?thesis by blast
qed

theorem merge_datasets_imdbId_from_catalog_witness:
  "reconciler_inputs links_sample meta_sample ratings_sample \<and>
   cell (rows links_sample ! 1) ''imdbId'' = PInt 222 \<and>
   catalog_match meta_sample (cell (rows links_sample ! 1) ''tmdbId'') = None \<and>
   (\<exists>out. merge_datasets library_sample links_sample meta_sample ratings_sample = Inr out \<and>
      ''imdbId'' \<in> set (columns out) \<and>
      (\<exists>r \<in> set (rows out). cell r ''movieId'' = PInt 11 \<and> cell r ''imdbId'' = Null) \<and>
      (\<exists>r \<in> set (rows out). cell r ''movieId'' = PInt 10 \<and> cell r ''imdbId'' = PStr ''tt001 ''))"
proof -
  from samples_return obtain out
    where run: "merge_datasets library_sample links_sample meta_sample ratings_sample = Inr out" by blast
  from merge_datasets_imdbId_from_catalog [OF samples_inputs run] obtain rss where
    col: "''imdbId'' \<in> set (columns out)"
    and rows: "rows out = concat rss" and len: "length rss = length (rows links_sample)"
    and gr: "\<forall>i < length (rows links_sample).
               rss ! i \<noteq> [] \<and>
               (\<forall>r \<in> set (rss ! i).
                  cell r ''movieId'' = cell (rows links_sample ! i) ''movieId'' \<and>
                  cell r ''imdbId'' = (case catalog_match meta_sample (cell (rows links_sample ! i) ''tmdbId'') of
                                         None \<Rightarrow> Null | Some m \<Rightarrow> cell m ''imdb_id''))"
    by blast
  have n: "length (rows links_sample) = 3" by (simp add: links_sample_def)
  have row: "\<exists>r \<in> set (rows out). cell r ''movieId'' = cell (rows links_sample ! i) ''movieId'' \<and>
               cell r ''imdbId'' = (case catalog_match meta_sample (cell (rows links_sample ! i) ''tmdbId'') of
                                      None \<Rightarrow> Null | Some m \<Rightarrow> cell m ''imdb_id'')"
    if i: "i < length (rows links_sample)" for i
  proof -
    from gr i have ne: "rss ! i \<noteq> []"
      and all: "\<And>r. r \<in> set (rss ! i) \<Longrightarrow>
                  cell r ''movieId'' = cell (rows links_sample ! i) ''movieId'' \<and>
                  cell r ''imdbId'' = (case catalog_match meta_sample (cell (rows links_sample ! i) ''tmdbId'') of
                                         None \<Rightarrow> Null | Some m \<Rightarrow> cell m ''imdb_id'')"
      by blast+
    from ne obtain r where r: "r \<in> set (rss ! i)" by (cases "rss ! i") auto
    from i len have "r \<in> set (rows out)" unfolding rows by (intro nth_mem_concat [OF _ r]) simp
    with all [OF r] show ?thesis by blast
  qed
  have l1: "cell (rows links_sample ! 1) ''movieId'' = PInt 11"
    and l0: "cell (rows links_sample ! 0) ''movieId'' = PInt 10"
    and m0: "cell (rows meta_sample ! 0) ''imdb_id'' = PStr ''tt001 ''"
    and l: "cell (rows links_sample ! 1) ''imdbId'' = PInt 222"
    by (simp_all add: links_sample_def meta_sample_def cell_def)
  have "1 < length (rows links_sample)" "0 < length (rows links_sample)" by (simp_all add: n)
  from row [OF this(1)] row [OF this(2)]
  have one: "\<exists>r \<in> set (rows out). cell r ''movieId'' = PInt 11 \<and> cell r ''imdbId'' = Null"
    and zero: "\<exists>r \<in> set (rows out). cell r ''movieId'' = PInt 10 \<and> cell r ''imdbId'' = PStr ''tt001 ''"
    unfolding samples_match l1 l0 option.case m0 by blast+
  from run col one zero samples_inputs samples_match(2) l show ?thesis by blast
qed




lemma strip_samples: "strip '' tt001'' = ''tt001''" "strip ''tt001 '' = ''tt001''" "strip ''tt001'' = ''tt001''"
  by (simp_all add: strip_def is_space_def)


text \<open>
  Claim C1. Whenever the reconciler returns a table on inputs of the schema, the table has,
  for each link row, as many rows as there are rating rows whose trimmed key equals the
  trimmed cross-reference of the link row's catalog row, and one row when there is none.
  The reconciler removes duplicates from the catalog only: a key that two rating rows share
  after trimming gives two rows to one link row, and so to one \<^verbatim>\<open>movieId\<close>.
\<close>

theorem merge_datasets_row_count:
  assumes "reconciler_inputs L M Q" and "merge_datasets lib L M Q = Inr out"
  shows "length (rows out)
           = sum_list (map (\<lambda>l. max 1 (length (rating_matches Q
                                   (rating_key (catalog_match M (cell l ''tmdbId''))))))
                         (rows L))"
proof -
  from merge_datasets_groups(2) [OF assms] obtain rss where
    rows: "rows out = concat rss" and len: "length rss = length (rows L)"
    and groups: "\<And>i. i < length (rows L) \<Longrightarrow>
              list_all2 (reconciles M (rows L ! i) (catalog_match M (cell (rows L ! i) ''tmdbId'')))
                (case rating_matches Q (rating_key (catalog_match M (cell (rows L ! i) ''tmdbId''))) of
                   [] \<Rightarrow> [None] | q # qs \<Rightarrow> map Some (q # qs))
                (rss ! i)"
    by blast
  have "length (rss ! i)
          = max 1 (length (rating_matches Q (rating_key (catalog_match M (cell (rows L ! i) ''tmdbId'')))))"
    if "i < length (rows L)" for i
    using list_all2_lengthD [OF groups [OF that]] by (simp split: list.splits)
  with len have "map length rss
      = map (\<lambda>l. max 1 (length (rating_matches Q (rating_key (catalog_match M (cell l ''tmdbId''))))))
          (rows L)"
    by (intro nth_equalityI) simp_all
  then show ?thesis by (simp add: rows length_concat)
qed

lemma duplicated_inputs: "reconciler_inputs links_sample meta_sample ratings_duplicated"
  by (simp add: reconciler_inputs_def links_sample_def meta_sample_def ratings_duplicated_def
        reserved_labels_def cell_def)

lemma duplicated_return:
  "\<exists>out. merge_datasets library_sample links_sample meta_sample ratings_duplicated = Inr out"
proof (rule merge_datasets_returns [OF duplicated_inputs])
  show "str_accessor library_sample (cross_references links_sample meta_sample) = None"
    by (simp add: samples_cross_references library_sample_def)
  show "str_accessor library_sample (map (\<lambda>q. cell q ''tconst'') (rows ratings_duplicated)) = None"
    by (simp add: library_sample_def ratings_duplicated_def cell_def)
qed

theorem merge_datasets_row_count_witness:
  "reconciler_inputs links_sample meta_sample ratings_duplicated \<and>
   map (\<lambda>l. cell l ''movieId'') (rows links_sample) = [PInt 10, PInt 11, PInt 12] \<and>
   (\<exists>out. merge_datasets library_sample links_sample meta_sample ratings_duplicated = Inr out \<and>
      length (rows out) = 4)"
proof -
  from duplicated_return obtain out
    where run: "merge_datasets library_sample links_sample meta_sample ratings_duplicated = Inr out"
    by blast
  have keys: "map (\<lambda>l. rating_key (catalog_match meta_sample (cell l ''tmdbId''))) (rows links_sample)
                = [PStr ''tt001'', Null, Null]"
    by (simp add: rating_key_def catalog_match_def links_sample_def meta_sample_def cell_def
          strip_samples)
  have m: "length (rating_matches ratings_duplicated (PStr ''tt001'')) = 2"
    "length (rating_matches ratings_duplicated Null) = 0"
    by (simp_all add: rating_matches_def ratings_duplicated_def cell_def strip_samples)
  have "map (\<lambda>l. max 1 (length (rating_matches ratings_duplicated
                                   (rating_key (catalog_match meta_sample (cell l ''tmdbId''))))))
          (rows links_sample)
        = map (\<lambda>k. max 1 (length (rating_matches ratings_duplicated k)))
            (map (\<lambda>l. rating_key (catalog_match meta_sample (cell l ''tmdbId''))) (rows links_sample))"
    by (simp add: comp_def)
  also have "\<dots> = [2, 1, 1]" unfolding keys by (simp add: m)
  finally have "length (rows out) = 4"
    using merge_datasets_row_count [OF duplicated_inputs run] by simp
  moreover have "map (\<lambda>l. cell l ''movieId'') (rows links_sample) = [PInt 10, PInt 11, PInt 12]"
    by (simp add: links_sample_def cell_def)
  ultimately show ?thesis using run duplicated_inputs by blast
qed

subsection \<open>The reconciler on the heap\<close>

lemma then_h_eq_Inr:
  "then_h m k = (h', Inr a) \<longleftrightarrow> (\<exists>h1 a1. m = (h1, Inr a1) \<and> k h1 a1 = (h', Inr a))"
  by (cases m) (auto simp: then_h_def split: sum.splits)

lemma alloc_eq_Inr:
  "alloc h res = (h1, Inr a1) \<longleftrightarrow> (\<exists>f. res = Inr f \<and> h1 = h @ [f] \<and> a1 = length h)"
  by (cases res) (auto simp: alloc_def)

lemma update_eq_Inr:
  "update h a res = (h1, Inr a1) \<longleftrightarrow> (\<exists>f. res = Inr f \<and> h1 = h[a := f] \<and> a1 = a)"
  by (cases res) (auto simp: update_def)

text \<open>
  A run of the reconciler that returns: the frames it allocates, the two it changes (its
  own \<^verbatim>\<open>merged\<close> and the caller's \<^verbatim>\<open>imdb_ratings\<close>), and the heap it leaves.
\<close>

lemma merge_datasets_h_heap:
  assumes run: "merge_datasets_h lib h l m q = (h', Inr a)" and q: "q < length h"
  shows "\<exists>f1 f2 f3 f4 f5 f6 f7 f8 f9 f10.
           assign_from ''tconst'' ''tconst'' (str_strip_series lib) (h ! q) = Inr f7 \<and>
           h' = ((h @ [f1, f2, f3, f4, f5])[length h + 4 := f6, q := f7]) @ [f8, f9, f10] \<and>
           a = length h + 7"
proof -
  from run obtain f1 f2 f3 f4 f5 f6 f7 f8 f9 f10 where
    "assign_from ''tconst'' ''tconst'' (str_strip_series lib)
       (((h @ [f1, f2, f3, f4, f5])[length h + 4 := f6]) ! q) = Inr f7"
    and h': "h' = ((h @ [f1, f2, f3, f4, f5])[length h + 4 := f6, q := f7]) @ [f8, f9, f10]"
    and a: "a = length h + 7"
    unfolding merge_datasets_h_def then_h_eq_Inr alloc_eq_Inr update_eq_Inr
    by (auto simp: numeral_eq_Suc)
  moreover from q have "((h @ [f1, f2, f3, f4, f5])[length h + 4 := f6]) ! q = h ! q"
    by (simp add: nth_append)
  ultimately show ?thesis by metis
qed

text \<open>A run of the reconciler on the heap returns what the function of the values returns.\<close>

lemma merge_datasets_h_returns:
  assumes l: "l < length h" and m: "m < length h" and q: "q < length h"
    and pure: "merge_datasets lib (h ! l) (h ! m) (h ! q) = Inr out"
  shows "\<exists>h'. merge_datasets_h lib h l m q = (h', Inr (length h + 7)) \<and> h' ! (length h + 7) = out"
proof -
  define R where "R = rename_columns [(''id'', ''tmdbId'')] (h ! m)"
  from pure obtain g3 g4 g5 g6 g7 g8 g9 where
    g3: "dropna ''tmdbId'' R = Inr g3"
    and g4: "drop_duplicates ''tmdbId'' g3 = Inr g4"
    and g5: "pd_merge_left ''tmdbId'' (h ! l) g4 = Inr g5"
    and g6: "assign_from ''tconst'' ''imdb_id'' (str_strip_series lib) g5 = Inr g6"
    and g7: "assign_from ''tconst'' ''tconst'' (str_strip_series lib) (h ! q) = Inr g7"
    and g8: "pd_merge_left ''tconst'' g6 g7 = Inr g8"
    and g9: "drop_columns [''imdbId'', ''tconst''] g8 = Inr g9"
    and out: "out = rename_columns [(''imdb_id'', ''imdbId''), (''numVotes'', ''imdb_numVotes''),
                                    (''averageRating'', ''imdb_averageRating'')] g9"
    unfolding merge_datasets_def and_then_eq_Inr R_def by auto
  define h5 where "h5 = h @ [R, R, g3, g4, g5]"
  define h7 where "h7 = h5[Suc (Suc (Suc (Suc (length h)))) := g6, q := g7]"
  have s1: "then_h (alloc h (Inr R)) K = K (h @ [R]) (length h)" for K :: "heap \<Rightarrow> nat \<Rightarrow> heap \<times> (pyexn + nat)"
    by simp
  have r5l: "h5 ! l = h ! l" using l by (simp add: h5_def nth_append)
  have r6q: "(h5[length h + 4 := g6]) ! q = h ! q" using q by (simp add: h5_def nth_append)
  have r7m: "h7 ! (length h + 4) = g6" using q by (simp add: h7_def h5_def nth_list_update)
  have r7q: "h7 ! q = g7" using q by (simp add: h7_def h5_def)
  have len7: "length h7 = length h + 5" by (simp add: h7_def h5_def)
  have rq: "((h @ [R, R, g3, g4, g5])[Suc (Suc (Suc (Suc (length h)))) := g6, q := g7]) ! q = g7"
    using q by simp
  have ne: "Suc (Suc (Suc (Suc (length h)))) \<noteq> q" "q \<noteq> Suc (Suc (Suc (Suc (length h))))"
    using q by simp_all
  have "merge_datasets_h lib h l m q = (h7 @ [g8, g9, out], Inr (length h + 7))"
    unfolding merge_datasets_h_def R_def [symmetric]
    apply (simp only: alloc_Inr then_h_Inr)
    apply (simp add: g3 nth_append)
    apply (simp add: g4 nth_append)
    apply (simp add: l g5 nth_append)
    apply (simp add: g6)
    apply (simp add: ne q nth_append nth_list_update g7)
    apply (simp add: rq nth_append g8 g9 out h7_def h5_def)
    done
  moreover have "(h7 @ [g8, g9, out]) ! (length h + 7) = out"
    by (simp add: nth_append len7)
  ultimately show ?thesis by simp
qed

text \<open>The expander allocates its result and changes nothing.\<close>

lemma one_hot_encode_genres_h_frame:
  assumes "one_hot_encode_genres_h h df = (h', res)"
  shows "take (length h) h' = h \<and> (\<forall>a. res = Inr a \<longrightarrow> a = length h \<and> a < length h')"
  using assms by (cases "one_hot_encode_genres (h ! df)") (auto simp: one_hot_encode_genres_h_def)

text \<open>
  Claim C2. The normalizer and the expander allocate their result and change no frame the
  caller holds (\<open>filter_transform_metadata_h_frame\<close>, \<open>one_hot_encode_genres_h_frame\<close>). The
  reconciler does not keep to that: whenever it returns, the frame the caller passed as \<^verbatim>\<open>imdb_ratings\<close> holds the
  trimmed keys in its column \<^verbatim>\<open>tconst\<close>. Every other frame of the caller is as it was, and
  the result is a frame allocated by the call.
\<close>

theorem merge_datasets_mutates_ratings:
  assumes "merge_datasets_h lib h ml_links meta_with_genres imdb_ratings = (h', Inr a)"
    and "imdb_ratings < length h"
  shows "h' ! imdb_ratings
           = \<lparr>columns = columns (h ! imdb_ratings),
              rows = map (\<lambda>q. q(''tconst'' \<mapsto> str_strip (cell q ''tconst''))) (rows (h ! imdb_ratings))\<rparr> \<and>
         (\<forall>b < length h. b \<noteq> imdb_ratings \<longrightarrow> h' ! b = h ! b) \<and>
         length h \<le> a \<and> a < length h'"
proof -
  from merge_datasets_h_heap [OF assms] obtain f1 f2 f3 f4 f5 f6 f7 f8 f9 f10 where
    f7: "assign_from ''tconst'' ''tconst'' (str_strip_series lib) (h ! imdb_ratings) = Inr f7"
    and h': "h' = ((h @ [f1, f2, f3, f4, f5])[length h + 4 := f6, imdb_ratings := f7]) @ [f8, f9, f10]"
    and a: "a = length h + 7"
    by blast
  from f7 have col: "''tconst'' \<in> set (columns (h ! imdb_ratings))"
    by (simp add: assign_from_eq_Inr)
  from f7 have "f7 = \<lparr>columns = columns (h ! imdb_ratings),
              rows = map (\<lambda>q. q(''tconst'' \<mapsto> str_strip (cell q ''tconst''))) (rows (h ! imdb_ratings))\<rparr>"
    using col by (simp add: assign_from_strip [OF col] add_column_def split: option.splits)
  moreover from assms(2) have "h' ! imdb_ratings = f7"
    by (simp add: h' nth_append)
  moreover have "h' ! b = h ! b" if "b < length h" "b \<noteq> imdb_ratings" for b
    using that by (simp add: h' nth_append)
  ultimately show ?thesis by (simp add: a h')
qed

theorem merge_datasets_mutates_ratings_witness:
  "\<exists>h' a. merge_datasets_h library_sample [links_sample, meta_sample, ratings_sample] 0 1 2 = (h', Inr a) \<and>
     cell (rows ([links_sample, meta_sample, ratings_sample] ! 2) ! 0) ''tconst'' = PStr '' tt001'' \<and>
     cell (rows (h' ! 2) ! 0) ''tconst'' = PStr ''tt001'' \<and>
     h' ! 0 = links_sample \<and> h' ! 1 = meta_sample \<and> 3 \<le> a"
proof -
  define h where "h = [links_sample, meta_sample, ratings_sample]"
  from samples_return obtain out
    where "merge_datasets library_sample (h ! 0) (h ! 1) (h ! 2) = Inr out" by (auto simp: h_def)
  from merge_datasets_h_returns [OF _ _ _ this] obtain h'
    where run: "merge_datasets_h library_sample h 0 1 2 = (h', Inr (length h + 7))"
    by (auto simp: h_def)
  have q: "2 < length h" by (simp add: h_def)
  from merge_datasets_mutates_ratings [OF run q]
  have m: "h' ! 2 = \<lparr>columns = columns (h ! 2),
              rows = map (\<lambda>q. q(''tconst'' \<mapsto> str_strip (cell q ''tconst''))) (rows (h ! 2))\<rparr>"
    and k: "\<forall>b < length h. b \<noteq> 2 \<longrightarrow> h' ! b = h ! b" by simp_all
  from m have "cell (rows (h' ! 2) ! 0) ''tconst'' = PStr ''tt001''"
    by (simp add: h_def ratings_sample_def cell_def strip_samples)
  moreover from k have "h' ! 0 = links_sample" "h' ! 1 = meta_sample" by (simp_all add: h_def)
  moreover have "cell (rows (h ! 2) ! 0) ''tconst'' = PStr '' tt001''"
    by (simp add: h_def ratings_sample_def cell_def)
  ultimately show ?thesis using run unfolding h_def by auto
qed

end
